theory Spec2Isabelle
  imports Main "HOL-Library.AList"
begin

section \<open>Python values and string operations\<close>

text \<open>
  The script \<^verbatim>\<open>get-list-of-eks-images.py\<close> handles values that are either a
  \<^verbatim>\<open>str\<close> or \<^verbatim>\<open>None\<close>: what \<^verbatim>\<open>parser.parse_value\<close> hands back, the
  local variables \<^verbatim>\<open>registry\<close>, \<^verbatim>\<open>repository\<close>, \<^verbatim>\<open>tag\<close>, \<^verbatim>\<open>image\<close>, and the
  entries of \<^verbatim>\<open>images_wip\<close>. They are modelled as \<open>string option\<close>.
\<close>

type_synonym pyval = "string option"

text \<open>Python truthiness of such a value (\<^verbatim>\<open>if registry:\<close>).\<close>

definition truthy :: "pyval \<Rightarrow> bool" where
  "truthy v = (case v of None \<Rightarrow> False | Some s \<Rightarrow> s \<noteq> [])"

text \<open>What an f-string renders for such a value (\<^verbatim>\<open>f"{repository}"\<close>).\<close>

definition py_str :: "pyval \<Rightarrow> string" where
  "py_str v = (case v of None \<Rightarrow> ''None'' | Some s \<Rightarrow> s)"

text \<open>The exceptions the script can raise by itself.\<close>

datatype error = KeyError string | TypeError | AttributeError

text \<open>\<^verbatim>\<open>s.split(c)\<close> for a one-character separator: never empty.\<close>

fun split :: "char \<Rightarrow> string \<Rightarrow> string list" where
  "split c [] = [[]]"
| "split c (x # xs) =
     (if x = c then [] # split c xs
      else (case split c xs of
              [] \<Rightarrow> [[x]]
            | w # ws \<Rightarrow> (x # w) # ws))"

text \<open>\<^verbatim>\<open>s.rstrip(c)\<close> for a one-character set.\<close>

definition rstrip :: "char \<Rightarrow> string \<Rightarrow> string" where
  "rstrip c s = rev (dropWhile (\<lambda>x. x = c) (rev s))"

text \<open>\<^verbatim>\<open>sep.join(xs)\<close>.\<close>

fun join :: "string \<Rightarrow> string list \<Rightarrow> string" where
  "join sep [] = []"
| "join sep [x] = x"
| "join sep (x # y # ys) = x @ sep @ join sep (y # ys)"

section \<open>process_image (lines 172-187)\<close>

text \<open>
  \<^verbatim>\<open>i_t = full_image.split(":")\<close>, \<^verbatim>\<open>image = i_t[0]\<close> and
  \<^verbatim>\<open>tag = i_t[1] if len(i_t) > 1 else "latest"\<close>.
\<close>

definition image_of :: "string \<Rightarrow> string" where
  "image_of full_image = (case split CHR '':'' full_image of [] \<Rightarrow> [] | x # _ \<Rightarrow> x)"

definition tag_of :: "string \<Rightarrow> string" where
  "tag_of full_image =
     (let i_t = split CHR '':'' full_image
      in if length i_t > 1 then i_t ! 1 else ''latest'')"

text \<open>
  The mirror table \<^verbatim>\<open>docker_mappings\<close> is a dict of strings, kept as an association
  list; \<^verbatim>\<open>not docker_mappings\<close> is emptiness. \<^verbatim>\<open>full_image\<close> is an entry of
  \<^verbatim>\<open>images_wip\<close> and may be \<^verbatim>\<open>None\<close>, on which \<^verbatim>\<open>.split\<close> raises AttributeError.
\<close>

definition process_image :: "pyval \<Rightarrow> (string \<times> string) list \<Rightarrow> error + pyval" where
  "process_image full_image docker_mappings =
     (if docker_mappings = [] then Inr full_image
      else case full_image of
        None \<Rightarrow> Inl AttributeError
      | Some fi \<Rightarrow>
          (let img = image_of fi; tag = tag_of fi
           in if CHR ''.'' \<in> set img then
                (let s = split CHR ''/'' (rstrip CHR ''/'' img);
                     dns = (case s of [] \<Rightarrow> [] | x # _ \<Rightarrow> x);
                     reassembled_url = join ''/'' (tl s)
                 in case map_of docker_mappings dns of
                      Some mirror \<Rightarrow> Inr (Some (mirror @ ''/'' @ reassembled_url @ '':'' @ tag))
                    | None \<Rightarrow> Inr (Some fi))
              else
                (if truthy (map_of docker_mappings ''default'')
                 then Inr (Some (py_str (map_of docker_mappings ''default'') @ ''/'' @ img @ '':'' @ tag))
                 else Inr (Some fi))))"

text \<open>
  The rule of the specification for the split: image and tag are separated at the LAST
  colon of the string, the tag being \<open>latest\<close> when there is no colon.
\<close>

definition spec_split_last :: "string \<Rightarrow> string \<times> string" where
  "spec_split_last raw =
     (if CHR '':'' \<in> set raw
      then (rev (tl (dropWhile (\<lambda>x. x \<noteq> CHR '':'') (rev raw))),
            rev (takeWhile (\<lambda>x. x \<noteq> CHR '':'') (rev raw)))
      else (raw, ''latest''))"

text \<open>
  The rule of the specification for the rewrite, on the image and tag that the script
  computes: the FIRST path segment decides whether a registry is present.
\<close>

definition spec_rewrite :: "string \<Rightarrow> (string \<times> string) list \<Rightarrow> string" where
  "spec_rewrite raw mirror_table =
     (let img = image_of raw; tag = tag_of raw;
          segment = takeWhile (\<lambda>x. x \<noteq> CHR ''/'') img;
          rest = drop (Suc (length segment)) img
      in if CHR ''.'' \<in> set segment then
           (case map_of mirror_table segment of
              Some mirror \<Rightarrow> mirror @ ''/'' @ rest @ '':'' @ tag
            | None \<Rightarrow> raw)
         else
           (case map_of mirror_table ''default'' of
              Some mirror \<Rightarrow> mirror @ ''/'' @ img @ '':'' @ tag
            | None \<Rightarrow> raw))"

section \<open>Catalog data and outputs\<close>

text \<open>
  A field binding (the \<^verbatim>\<open>v\<close> of \<^verbatim>\<open>image_data.items()\<close>) is a dict of strings
  (\<^verbatim>\<open>path\<close>, \<^verbatim>\<open>location\<close>, \<^verbatim>\<open>name\<close>, ...); an image spec maps roles to bindings.
  Dicts are association lists in declaration order. A chart spec has its \<^verbatim>\<open>name\<close>,
  \<^verbatim>\<open>repository\<close> and \<^verbatim>\<open>version\<close>; \<^verbatim>\<open>subcharts\<close> and \<^verbatim>\<open>images\<close> are
  optional keys.
\<close>

type_synonym binding = "(string \<times> string) list"

type_synonym image_data = "(string \<times> binding) list"

record chart_spec =
  cs_name :: string
  cs_repository :: string
  cs_version :: string
  cs_subcharts :: "string list option"
  cs_images :: "(string \<times> image_data) list option"

record args =
  registry_prefix :: string
  replicate_charts :: bool

text \<open>The override tree written under \<^verbatim>\<open>custom_chart_values[workload]["values"]\<close>.\<close>

datatype tree = Leaf pyval | Dict "(string \<times> tree) list"

type_synonym dict = "(string \<times> tree) list"

definition tree_truthy :: "tree \<Rightarrow> bool" where
  "tree_truthy t = (case t of Leaf v \<Rightarrow> truthy v | Dict d \<Rightarrow> d \<noteq> [])"

record helm_block =
  h_name :: string
  h_repository :: string
  h_version :: string
  h_srcRepository :: "string option"

record workload_out =
  w_helm :: helm_block
  w_values :: dict

type_synonym charts = "(string \<times> workload_out) list"

record manifest =
  m_ami_version :: string
  m_charts :: charts
  m_additional_images :: "(string \<times> string) list"

record mapping_entry =
  src :: pyval
  target :: string

record outputs =
  replication_result :: manifest
  updated_images :: "mapping_entry list"

section \<open>The collaborators\<close>

text \<open>
  \<^verbatim>\<open>parser.parse_value\<close> and \<^verbatim>\<open>parser.add_branch_to_dict\<close> live in the
  \<^verbatim>\<open>helmparser\<close> package, outside the script. They are parameters of the model:
  \<open>rv v k\<close> stands for \<^verbatim>\<open>parser.parse_value(parsed_charts[workload], values, image_name, v, k)\<close>
  and \<open>ab d v x\<close> for \<^verbatim>\<open>parser.add_branch_to_dict(d, v, x)\<close>. The image passes never
  look inside the tree, so they are polymorphic in its type.
\<close>

type_synonym resolver = "binding \<Rightarrow> string \<Rightarrow> pyval"

type_synonym 'd adder = "'d \<Rightarrow> binding \<Rightarrow> pyval \<Rightarrow> 'd"

type_synonym parse_value = "string \<Rightarrow> chart_spec \<Rightarrow> string \<Rightarrow> resolver"

section \<open>One image spec (lines 96-165)\<close>

text \<open>Lines 102-113: the registries.\<close>

fun registry_pass :: "resolver \<Rightarrow> 'd adder \<Rightarrow> string \<Rightarrow> image_data \<Rightarrow> pyval \<times> 'd \<Rightarrow> pyval \<times> 'd" where
  "registry_pass rv ab prefix [] (registry, vals) = (registry, vals)"
| "registry_pass rv ab prefix ((k, v) # kvs) (registry, vals) =
     (if k = ''registry'' then
        (let registry' = rv v k
         in registry_pass rv ab prefix kvs
              (registry',
               if truthy registry' then ab vals v (Some (prefix @ py_str registry')) else vals))
      else registry_pass rv ab prefix kvs (registry, vals))"

text \<open>Lines 116-145: repositories and tags, in one loop.\<close>

fun repository_tag_pass ::
  "resolver \<Rightarrow> 'd adder \<Rightarrow> string \<Rightarrow> pyval \<Rightarrow> image_data \<Rightarrow> pyval \<times> pyval \<times> 'd \<Rightarrow> pyval \<times> pyval \<times> 'd" where
  "repository_tag_pass rv ab prefix registry [] (repository, tag, vals) = (repository, tag, vals)"
| "repository_tag_pass rv ab prefix registry ((k, v) # kvs) (repository, tag, vals) =
     (if k = ''repository'' then
        (case map_of v ''name'' of
           Some n \<Rightarrow> repository_tag_pass rv ab prefix registry kvs (Some n, tag, vals)
         | None \<Rightarrow>
             (let repository' = rv v k;
                  repository_in_chart_values =
                    (if \<not> truthy registry then Some (prefix @ py_str repository') else repository')
              in repository_tag_pass rv ab prefix registry kvs
                   (repository', tag, ab vals v repository_in_chart_values)))
      else if k = ''tag'' then
        (let tag' = rv v k
         in repository_tag_pass rv ab prefix registry kvs (repository, tag', ab vals v tag'))
      else repository_tag_pass rv ab prefix registry kvs (repository, tag, vals))"

text \<open>Lines 148-156: the fields to blank.\<close>

fun remove_pass :: "'d adder \<Rightarrow> image_data \<Rightarrow> 'd \<Rightarrow> 'd" where
  "remove_pass ab [] vals = vals"
| "remove_pass ab ((k, v) # kvs) vals =
     (if k = ''remove'' then remove_pass ab kvs (ab vals v (Some []))
      else remove_pass ab kvs vals)"

text \<open>
  Lines 158-162: the coordinate. \<^verbatim>\<open>image += f":{tag}"\<close> on \<^verbatim>\<open>None\<close> raises TypeError.
\<close>

definition assemble_image :: "pyval \<Rightarrow> pyval \<Rightarrow> pyval \<Rightarrow> error + pyval" where
  "assemble_image registry repository tag =
     (let img = (if truthy registry then Some (py_str registry @ ''/'' @ py_str repository)
                   else repository)
      in if truthy tag then
           (case img of
              None \<Rightarrow> Inl TypeError
            | Some s \<Rightarrow> Inr (Some (s @ '':'' @ py_str tag)))
         else Inr img)"

definition extract_image ::
  "resolver \<Rightarrow> 'd adder \<Rightarrow> string \<Rightarrow> image_data \<Rightarrow> 'd \<times> pyval list \<Rightarrow> error + ('d \<times> pyval list)" where
  "extract_image rv ab prefix image_data st =
     (case st of (vals, images_wip) \<Rightarrow>
        (case registry_pass rv ab prefix image_data (None, vals) of (registry, vals1) \<Rightarrow>
           (case repository_tag_pass rv ab prefix registry image_data (None, None, vals1) of
              (repository, tag, vals2) \<Rightarrow>
                (case assemble_image registry repository tag of
                   Inl e \<Rightarrow> Inl e
                 | Inr img \<Rightarrow> Inr (remove_pass ab image_data vals2, images_wip @ [img])))))"

section \<open>The workloads (lines 77-168)\<close>

fun images_loop ::
  "(string \<Rightarrow> resolver) \<Rightarrow> 'd adder \<Rightarrow> string \<Rightarrow> (string \<times> image_data) list \<Rightarrow> 'd \<times> pyval list
     \<Rightarrow> error + ('d \<times> pyval list)" where
  "images_loop rv ab prefix [] st = Inr st"
| "images_loop rv ab prefix ((image_name, image_data) # rest) st =
     (case extract_image (rv image_name) ab prefix image_data st of
        Inl e \<Rightarrow> Inl e
      | Inr st' \<Rightarrow> images_loop rv ab prefix rest st')"

text \<open>
  Lines 78-89: \<^verbatim>\<open>values["repository"].rstrip('/').split('/')[-1]\<close> is the last piece
  of a list that is never empty.
\<close>

definition helm_of :: "args \<Rightarrow> chart_spec \<Rightarrow> helm_block" where
  "helm_of a vals =
     (if replicate_charts a then
        (let new_r_name = last (split CHR ''/'' (rstrip CHR ''/'' (cs_repository vals)))
         in \<lparr>h_name = cs_name vals,
             h_repository = ''oci://'' @ registry_prefix a @ new_r_name @ ''/'' @ cs_name vals,
             h_version = cs_version vals,
             h_srcRepository = Some (cs_repository vals)\<rparr>)
      else \<lparr>h_name = cs_name vals, h_repository = cs_repository vals,
            h_version = cs_version vals, h_srcRepository = None\<rparr>)"

definition walk_workload ::
  "parse_value \<Rightarrow> dict adder \<Rightarrow> args \<Rightarrow> string \<Rightarrow> chart_spec \<Rightarrow> charts \<times> pyval list
     \<Rightarrow> error + (charts \<times> pyval list)" where
  "walk_workload pv ab a workload vals st =
     (case st of (custom_chart_values, images_wip) \<Rightarrow>
        (case cs_images vals of
           None \<Rightarrow>
             Inr (AList.update workload \<lparr>w_helm = helm_of a vals, w_values = []\<rparr> custom_chart_values,
                  images_wip)
         | Some imgs \<Rightarrow>
             (case images_loop (pv workload vals) ab (registry_prefix a) imgs ([], images_wip) of
                Inl e \<Rightarrow> Inl e
              | Inr (d, images_wip') \<Rightarrow>
                  Inr (AList.update workload \<lparr>w_helm = helm_of a vals, w_values = d\<rparr> custom_chart_values,
                       images_wip'))))"

fun walk ::
  "parse_value \<Rightarrow> dict adder \<Rightarrow> args \<Rightarrow> (string \<times> chart_spec) list \<Rightarrow> charts \<times> pyval list
     \<Rightarrow> error + (charts \<times> pyval list)" where
  "walk pv ab a [] st = Inr st"
| "walk pv ab a ((workload, vals) # rest) st =
     (case walk_workload pv ab a workload vals st of
        Inl e \<Rightarrow> Inl e
      | Inr st' \<Rightarrow> walk pv ab a rest st')"

section \<open>The image mapping list (lines 169-194)\<close>

text \<open>
  Line 169, \<^verbatim>\<open>sorted_images = sorted(set(images_wip))\<close>: the result is not read again,
  but sorting a set that holds both \<^verbatim>\<open>None\<close> and a string raises TypeError.
\<close>

definition sorted_images_raises :: "pyval list \<Rightarrow> bool" where
  "sorted_images_raises images_wip =
     (None \<in> set images_wip \<and> list_ex (\<lambda>x. x \<noteq> None) images_wip)"

text \<open>Lines 189-191 and 192-194: the same loop body over two lists.\<close>

fun rewrite_all :: "string \<Rightarrow> (string \<times> string) list \<Rightarrow> pyval list \<Rightarrow> error + mapping_entry list" where
  "rewrite_all prefix docker_mappings [] = Inr []"
| "rewrite_all prefix docker_mappings (img # rest) =
     (case process_image img docker_mappings of
        Inl e \<Rightarrow> Inl e
      | Inr working_image \<Rightarrow>
          (case rewrite_all prefix docker_mappings rest of
             Inl e \<Rightarrow> Inl e
           | Inr es \<Rightarrow> Inr (\<lparr>src = working_image, target = prefix @ py_str img\<rparr> # es)))"

section \<open>The custom rule (lines 200-207)\<close>

text \<open>
  \<^verbatim>\<open>custom_chart_values['cert_manager']['values']['appVersion']\<close> raises KeyError on
  a missing key; the handler logs and raises again. The \<^verbatim>\<open>del\<close> changes the dict
  that the manifest holds.
\<close>

definition cert_rule :: "charts \<Rightarrow> error + charts" where
  "cert_rule custom_chart_values =
     (case map_of custom_chart_values ''cert_manager'' of
        None \<Rightarrow> Inl (KeyError ''cert_manager'')
      | Some w \<Rightarrow>
          (case map_of (w_values w) ''appVersion'' of
             None \<Rightarrow> Inl (KeyError ''appVersion'')
           | Some t \<Rightarrow>
               (if tree_truthy t
                then Inr (AList.update ''cert_manager''
                            (w\<lparr>w_values := AList.delete ''appVersion'' (w_values w)\<rparr>)
                            custom_chart_values)
                else Inr custom_chart_values)))"

section \<open>main (lines 21-221)\<close>

text \<open>
  The two files are written by the last statements of \<^verbatim>\<open>main\<close>: a run that raises
  writes neither, a run that returns writes both. \<open>Inl\<close> is the run that raises,
  \<open>Inr\<close> carries what the two files hold. The catalog (additional images, mirror
  table, workloads, AMI version) is what the \<^verbatim>\<open>parser.get_*\<close> calls return.
  \<^verbatim>\<open>deep_merge\<close> is given three dicts with the distinct keys \<^verbatim>\<open>ami\<close>,
  \<^verbatim>\<open>charts\<close> and \<^verbatim>\<open>additional_images\<close>: the manifest is the record of the
  three. The helm calls of lines 48-75 (repository sync, \<^verbatim>\<open>helm show\<close>) only feed
  \<^verbatim>\<open>parse_value\<close> and are part of that parameter.
\<close>

definition main ::
  "parse_value \<Rightarrow> dict adder \<Rightarrow> args \<Rightarrow> string \<Rightarrow> (string \<times> string) list \<Rightarrow> (string \<times> string) list
     \<Rightarrow> (string \<times> chart_spec) list \<Rightarrow> error + outputs" where
  "main pv ab a ami additional_images docker_mappings workloads_data =
     (let images_wip = map (\<lambda>(_, img). Some img) additional_images;
          updated_additional_images =
            foldl (\<lambda>d (name, img). AList.update name (registry_prefix a @ img) d) [] additional_images
      in case walk pv ab a workloads_data ([], images_wip) of
           Inl e \<Rightarrow> Inl e
         | Inr (custom_chart_values, images_wip') \<Rightarrow>
             (if sorted_images_raises images_wip' then Inl TypeError
              else
                (case rewrite_all (registry_prefix a) docker_mappings
                        (map (\<lambda>(_, img). Some img) additional_images) of
                   Inl e \<Rightarrow> Inl e
                 | Inr es1 \<Rightarrow>
                     (case rewrite_all (registry_prefix a) docker_mappings images_wip' of
                        Inl e \<Rightarrow> Inl e
                      | Inr es2 \<Rightarrow>
                          (case cert_rule custom_chart_values of
                             Inl e \<Rightarrow> Inl e
                           | Inr custom_chart_values' \<Rightarrow>
                               Inr \<lparr>replication_result =
                                      \<lparr>m_ami_version = ami, m_charts = custom_chart_values',
                                       m_additional_images = updated_additional_images\<rparr>,
                                    updated_images = es1 @ es2\<rparr>)))))"

section \<open>Collaborators for concrete runs\<close>

text \<open>
  Modelled from the spec: \<^verbatim>\<open>parser.add_branch_to_dict\<close> is not part of the script. The
  specification describes it as PathResolver.setAtPath: the leaf at a dotted path is set,
  intermediate maps are created as needed, and sibling keys are kept. The path is the
  binding's \<^verbatim>\<open>path\<close> entry.
\<close>

fun set_at_path :: "string list \<Rightarrow> pyval \<Rightarrow> dict \<Rightarrow> dict" where
  "set_at_path [] x d = d"
| "set_at_path [k] x d = AList.update k (Leaf x) d"
| "set_at_path (k # k' # ks) x d =
     AList.update k
       (Dict (set_at_path (k' # ks) x (case map_of d k of Some (Dict d') \<Rightarrow> d' | _ \<Rightarrow> []))) d"

definition add_branch_to_dict :: "dict adder" where
  "add_branch_to_dict d v x =
     (case map_of v ''path'' of
        None \<Rightarrow> d
      | Some p \<Rightarrow> set_at_path (split CHR ''.'' p) x d)"

text \<open>
  Modelled from the spec: \<^verbatim>\<open>parser.parse_value\<close> is not part of the script. The
  specification describes it as PathResolver.resolve: the value at a dotted path of the
  chart's values, \<^verbatim>\<open>None\<close> when the path is missing. The chart values of each workload
  are what \<^verbatim>\<open>helm show\<close> returned.
\<close>

fun resolve :: "string list \<Rightarrow> tree \<Rightarrow> pyval" where
  "resolve [] (Leaf x) = x"
| "resolve [] (Dict d) = None"
| "resolve (k # ks) (Leaf x) = None"
| "resolve (k # ks) (Dict d) = (case map_of d k of None \<Rightarrow> None | Some t \<Rightarrow> resolve ks t)"

definition parse_value_in :: "(string \<Rightarrow> dict) \<Rightarrow> parse_value" where
  "parse_value_in parsed_charts workload vals image_name v k =
     (case map_of v ''path'' of
        None \<Rightarrow> None
      | Some p \<Rightarrow> resolve (split CHR ''.'' p) (Dict (parsed_charts workload)))"

section \<open>The overrides of one image spec, as a list\<close>

text \<open>
  The three loops reach \<^verbatim>\<open>custom_chart_values[workload]["values"]\<close> only through
  \<^verbatim>\<open>parser.add_branch_to_dict\<close>. Run with an adder that records its calls, they give
  the list of (binding, written value) pairs of one image spec in call order;
  \<open>replay\<close> feeds such a list to a real adder.
\<close>

definition record_write :: "(binding \<times> pyval) list adder" where
  "record_write ws v x = ws @ [(v, x)]"

definition replay :: "'d adder \<Rightarrow> 'd \<Rightarrow> (binding \<times> pyval) list \<Rightarrow> 'd" where
  "replay ab d ws = foldl (\<lambda>d' (v, x). ab d' v x) d ws"

definition image_overrides :: "resolver \<Rightarrow> string \<Rightarrow> image_data \<Rightarrow> (binding \<times> pyval) list" where
  "image_overrides rv prefix image_data =
     (case registry_pass rv record_write prefix image_data (None, []) of (registry, ws1) \<Rightarrow>
        (case repository_tag_pass rv record_write prefix registry image_data (None, None, ws1) of
           (repository, tag, ws2) \<Rightarrow> remove_pass record_write image_data ws2))"

text \<open>
  The variables \<^verbatim>\<open>registry\<close>, \<^verbatim>\<open>repository\<close> and \<^verbatim>\<open>tag\<close> as they stand at
  line 158, after the loops.
\<close>

definition image_fields :: "resolver \<Rightarrow> string \<Rightarrow> image_data \<Rightarrow> pyval \<times> pyval \<times> pyval" where
  "image_fields rv prefix image_data =
     (case registry_pass rv record_write prefix image_data (None, []) of (registry, ws1) \<Rightarrow>
        (case repository_tag_pass rv record_write prefix registry image_data (None, None, ws1) of
           (repository, tag, ws2) \<Rightarrow> (registry, repository, tag)))"

definition known_role :: "string \<Rightarrow> bool" where
  "known_role k = (k = ''registry'' \<or> k = ''repository'' \<or> k = ''tag'' \<or> k = ''remove'')"

section \<open>Example catalog entries\<close>

text \<open>
  A chart whose values hold a registry and a repository for its image (the example of
  the specification), and a chart whose values hold none of the referenced paths.
\<close>

definition ecr_values :: dict where
  "ecr_values =
     [(''image'', Dict [(''registry'', Leaf (Some ''123.dkr.ecr.example.com'')),
                        (''repository'', Leaf (Some ''app''))])]"

definition ecr_image :: image_data where
  "ecr_image =
     [(''registry'', [(''location'', ''values''), (''path'', ''image.registry'')]),
      (''repository'', [(''location'', ''values''), (''path'', ''image.repository'')])]"

definition ecr_chart :: chart_spec where
  "ecr_chart =
     \<lparr>cs_name = ''app'', cs_repository = ''https://charts.example.com/stable/'',
      cs_version = ''1.0.0'', cs_subcharts = None, cs_images = Some [(''main'', ecr_image)]\<rparr>"

definition bare_image :: image_data where
  "bare_image =
     [(''registry'', [(''location'', ''values''), (''path'', ''image.registry'')]),
      (''repository'', [(''location'', ''values''), (''path'', ''image.repository'')]),
      (''tag'', [(''location'', ''values''), (''path'', ''image.tag'')])]"

definition bare_chart :: chart_spec where
  "bare_chart =
     \<lparr>cs_name = ''bare'', cs_repository = ''https://charts.example.com/bare'',
      cs_version = ''0.1.0'', cs_subcharts = None, cs_images = Some [(''main'', bare_image)]\<rparr>"

text \<open>
  A catalog in the shape of the repository's own: the cert-manager chart, whose tag is
  read from the chart's \<^verbatim>\<open>appVersion\<close>, and a second chart with literal image names.
\<close>

definition cm_parsed :: "string \<Rightarrow> dict" where
  "cm_parsed workload =
     (if workload = ''cert_manager''
      then [(''appVersion'', Leaf (Some ''v1.5.3'')),
            (''image'', Dict [(''repository'', Leaf (Some ''quay.io/jetstack/cert-manager-controller''))])]
      else [])"

definition cm_image :: image_data where
  "cm_image =
     [(''repository'', [(''location'', ''values''), (''path'', ''image.repository'')]),
      (''tag'', [(''location'', ''chart''), (''path'', ''appVersion'')])]"

definition cm_chart :: chart_spec where
  "cm_chart =
     \<lparr>cs_name = ''cert-manager'', cs_repository = ''https://charts.jetstack.io'',
      cs_version = ''v1.5.3'', cs_subcharts = None, cs_images = Some [(''controller'', cm_image)]\<rparr>"

text \<open>The same chart with the \<^verbatim>\<open>appVersion\<close> field blanked by a remove role.\<close>

definition cm_image_blank :: image_data where
  "cm_image_blank =
     [(''repository'', [(''location'', ''values''), (''path'', ''image.repository'')]),
      (''remove'', [(''location'', ''chart''), (''path'', ''appVersion'')])]"

definition cm_chart_blank :: chart_spec where
  "cm_chart_blank = cm_chart\<lparr>cs_images := Some [(''controller'', cm_image_blank)]\<rparr>"

text \<open>The same chart without the tag role: no \<^verbatim>\<open>appVersion\<close> override is written.\<close>

definition cm_image_untagged :: image_data where
  "cm_image_untagged =
     [(''repository'', [(''location'', ''values''), (''path'', ''image.repository'')])]"

definition cm_chart_untagged :: chart_spec where
  "cm_chart_untagged = cm_chart\<lparr>cs_images := Some [(''controller'', cm_image_untagged)]\<rparr>"

text \<open>The same chart with a role that is none of the four.\<close>

definition cm_image_digest :: image_data where
  "cm_image_digest = cm_image @ [(''digest'', [(''location'', ''values''), (''path'', ''image.digest'')])]"

definition cm_chart_digest :: chart_spec where
  "cm_chart_digest = cm_chart\<lparr>cs_images := Some [(''controller'', cm_image_digest)]\<rparr>"

definition web_chart :: chart_spec where
  "web_chart =
     \<lparr>cs_name = ''web'', cs_repository = ''https://charts.example.com/web'',
      cs_version = ''2.0.0'', cs_subcharts = None,
      cs_images = Some [(''front'', [(''repository'', [(''name'', ''nginx'')])]),
                        (''init'', [(''repository'', [(''name'', ''busybox'')])]),
                        (''back'', [(''repository'', [(''name'', ''nginx'')])])]\<rparr>"

definition plain_chart :: chart_spec where
  "plain_chart =
     \<lparr>cs_name = ''plain'', cs_repository = ''https://charts.example.com/plain/'',
      cs_version = ''0.3.0'', cs_subcharts = None, cs_images = None\<rparr>"

definition example_args :: args where
  "example_args = \<lparr>registry_prefix = ''999.dkr.ecr.example.com/'', replicate_charts = False\<rparr>"

section \<open>Projections of the outputs\<close>

text \<open>Everything the two files hold except the helm blocks.\<close>

definition without_helm ::
  "outputs \<Rightarrow> string \<times> (string \<times> dict) list \<times> (string \<times> string) list \<times> mapping_entry list" where
  "without_helm out =
     (m_ami_version (replication_result out),
      map (\<lambda>(workload, w). (workload, w_values w)) (m_charts (replication_result out)),
      m_additional_images (replication_result out),
      updated_images out)"

definition has_images :: "string \<times> chart_spec \<Rightarrow> bool" where
  "has_images wc = (cs_images (snd wc) \<noteq> None)"

text \<open>
  An image spec without the unknown roles, and a chart spec whose image specs are
  restricted to the four roles.
\<close>

definition known_roles_only :: "chart_spec \<Rightarrow> chart_spec" where
  "known_roles_only vals =
     vals\<lparr>cs_images :=
            map_option (map (\<lambda>(image_name, kvs). (image_name, filter (\<lambda>(k, v). known_role k) kvs)))
              (cs_images vals)\<rparr>"

section \<open>The error log and the exit status\<close>

text \<open>
  \<^verbatim>\<open>logger.error\<close> is called in one place, the handler of lines 205-206, with the
  exception that the custom rule raised; every other raise leaves main unlogged. The
  calls of a run, in order:
\<close>

definition error_log ::
  "parse_value \<Rightarrow> dict adder \<Rightarrow> args \<Rightarrow> (string \<times> string) list \<Rightarrow> (string \<times> string) list
     \<Rightarrow> (string \<times> chart_spec) list \<Rightarrow> error list" where
  "error_log pv ab a additional_images docker_mappings workloads_data =
     (case walk pv ab a workloads_data ([], map (\<lambda>(_, img). Some img) additional_images) of
        Inl e \<Rightarrow> []
      | Inr (custom_chart_values, images_wip') \<Rightarrow>
          (if sorted_images_raises images_wip' then []
           else
             (case rewrite_all (registry_prefix a) docker_mappings
                     (map (\<lambda>(_, img). Some img) additional_images) of
                Inl e \<Rightarrow> []
              | Inr es1 \<Rightarrow>
                  (case rewrite_all (registry_prefix a) docker_mappings images_wip' of
                     Inl e \<Rightarrow> []
                   | Inr es2 \<Rightarrow>
                       (case cert_rule custom_chart_values of
                          Inl e \<Rightarrow> [e]
                        | Inr custom_chart_values' \<Rightarrow> [])))))"

text \<open>
  Lines 223-224: the script calls \<^verbatim>\<open>main()\<close> at top level. An exception that leaves
  main ends the process with status 1, a return with status 0.
\<close>

definition exit_status :: "error + outputs \<Rightarrow> nat" where
  "exit_status r = (case r of Inl e \<Rightarrow> 1 | Inr out \<Rightarrow> 0)"

section \<open>Facts about the string operations\<close>

lemma split_not_Nil: "split c s \<noteq> []"
  by (induction s) (auto split: list.splits)

lemma split_no_sep: "c \<notin> set s \<Longrightarrow> split c s = [s]"
  by (induction s) auto

lemma split_at_first:
  "split c (xs @ c # ys) = (if c \<in> set xs then split c (xs @ c # ys) else xs # split c ys)"
  by (induction xs) (auto split: list.splits simp: split_not_Nil)

lemma hd_split: "(case split c s of [] \<Rightarrow> [] | x # _ \<Rightarrow> x) = takeWhile (\<lambda>x. x \<noteq> c) s"
  by (induction s) (auto split: list.splits simp: split_not_Nil)

lemma takeWhile_neq_all: "c \<notin> set s \<Longrightarrow> takeWhile (\<lambda>x. x \<noteq> c) s = s"
  by (induction s) auto

lemma dropWhile_neq_all: "c \<notin> set s \<Longrightarrow> dropWhile (\<lambda>x. x \<noteq> c) s = []"
  by (induction s) auto

lemma split_first:
  "c \<in> set s \<Longrightarrow> split c s = takeWhile (\<lambda>x. x \<noteq> c) s # split c (tl (dropWhile (\<lambda>x. x \<noteq> c) s))"
  by (induction s) (auto split: list.splits simp: split_not_Nil)

lemma join_split: "join [c] (split c s) = s"
proof (induction s)
  case Nil show ?case by simp
next
  case (Cons x xs)
  obtain w ws where ws: "split c xs = w # ws"
    using split_not_Nil[of c xs] by (cases "split c xs") auto
  show ?case using Cons ws by (cases ws) auto
qed

lemma join_tl_split:
  "join [c] (tl (split c s)) = drop (Suc (length (takeWhile (\<lambda>x. x \<noteq> c) s))) s"
proof (cases "c \<in> set s")
  case True
  have "drop (Suc (length (takeWhile (\<lambda>x. x \<noteq> c) s))) s = tl (dropWhile (\<lambda>x. x \<noteq> c) s)"
    by (simp add: dropWhile_eq_drop drop_Suc tl_drop)
  then show ?thesis using True by (simp add: split_first join_split)
next
  case False
  then show ?thesis by (simp add: split_no_sep takeWhile_neq_all)
qed

section \<open>The split into image and tag\<close>

lemma image_of_eq: "image_of s = takeWhile (\<lambda>x. x \<noteq> CHR '':'') s"
  by (simp add: image_of_def hd_split)

lemma tag_of_eq:
  "tag_of s = (if CHR '':'' \<in> set s
               then takeWhile (\<lambda>x. x \<noteq> CHR '':'') (tl (dropWhile (\<lambda>x. x \<noteq> CHR '':'') s))
               else ''latest'')"
proof (cases "CHR '':'' \<in> set s")
  case True
  let ?r = "tl (dropWhile (\<lambda>x. x \<noteq> CHR '':'') s)"
  have "split CHR '':'' s = takeWhile (\<lambda>x. x \<noteq> CHR '':'') s # split CHR '':'' ?r"
    using True by (rule split_first)
  moreover obtain w ws where "split CHR '':'' ?r = w # ws"
    using split_not_Nil[of "CHR '':''" ?r] by (cases "split CHR '':'' ?r") auto
  moreover have "(case split CHR '':'' ?r of [] \<Rightarrow> [] | x # _ \<Rightarrow> x) = takeWhile (\<lambda>x. x \<noteq> CHR '':'') ?r"
    by (rule hd_split)
  ultimately show ?thesis using True by (simp add: tag_of_def Let_def)
next
  case False
  then show ?thesis by (simp add: tag_of_def split_no_sep)
qed

lemma single_sep_first_is_last:
  assumes "count_list s c \<le> 1" and "c \<in> set s"
  shows "rev (tl (dropWhile (\<lambda>x. x \<noteq> c) (rev s))) = takeWhile (\<lambda>x. x \<noteq> c) s"
    and "rev (takeWhile (\<lambda>x. x \<noteq> c) (rev s)) = takeWhile (\<lambda>x. x \<noteq> c) (tl (dropWhile (\<lambda>x. x \<noteq> c) s))"
proof -
  obtain xs ys where s: "s = xs @ c # ys" and nx: "c \<notin> set xs"
    using assms(2) by (meson split_list_first)
  have ny: "c \<notin> set ys" using assms(1) s by (auto simp: count_list_0_iff)
  have ry: "c \<notin> set (rev ys)" using ny by simp
  have l: "rev s = rev ys @ c # rev xs" using s by simp
  have "takeWhile (\<lambda>x. x \<noteq> c) s = xs" "dropWhile (\<lambda>x. x \<noteq> c) s = c # ys"
    "takeWhile (\<lambda>x. x \<noteq> c) (rev s) = rev ys" "dropWhile (\<lambda>x. x \<noteq> c) (rev s) = c # rev xs"
    unfolding l unfolding s using nx ny ry
    by (simp_all add: takeWhile_append dropWhile_append takeWhile_neq_all dropWhile_neq_all)
  then show "rev (tl (dropWhile (\<lambda>x. x \<noteq> c) (rev s))) = takeWhile (\<lambda>x. x \<noteq> c) s"
    and "rev (takeWhile (\<lambda>x. x \<noteq> c) (rev s)) = takeWhile (\<lambda>x. x \<noteq> c) (tl (dropWhile (\<lambda>x. x \<noteq> c) s))"
    using ny by (simp_all add: takeWhile_neq_all)
qed

text \<open>
  C3, as the script has it. The string is cut at EVERY colon: the image is the text before
  the first colon and the tag the text between the first colon and the second (or the
  end of the string); the tag is \<open>latest\<close> when there is no colon. With at most one
  colon in the string this is the split at the last colon.
\<close>

theorem split_image_tag_first_colon:
  "image_of s = takeWhile (\<lambda>x. x \<noteq> CHR '':'') s \<and>
   tag_of s = (if CHR '':'' \<in> set s
               then takeWhile (\<lambda>x. x \<noteq> CHR '':'') (tl (dropWhile (\<lambda>x. x \<noteq> CHR '':'') s))
               else ''latest'') \<and>
   (count_list s CHR '':'' \<le> 1 \<longrightarrow> (image_of s, tag_of s) = spec_split_last s)"
  using single_sep_first_is_last[of s "CHR '':''"]
  by (auto simp: image_of_eq tag_of_eq spec_split_last_def)

theorem split_image_tag_first_colon_witness:
  "count_list ''foo/bar:v2'' CHR '':'' \<le> 1 \<and>
   (image_of ''foo/bar:v2'', tag_of ''foo/bar:v2'') = (''foo/bar'', ''v2'') \<and>
   spec_split_last ''foo/bar:v2'' = (''foo/bar'', ''v2'')"
  using split_image_tag_first_colon[of "''foo/bar:v2''"]
  by (simp add: spec_split_last_def)

text \<open>
  C3 as stated fails on a registry with a port: the script cuts at the port's colon,
  the split at the last colon cuts at the tag's.
\<close>

theorem split_last_colon_counterexample:
  "image_of ''my.registry.io:5000/foo:v1'' = ''my.registry.io'' \<and>
   tag_of ''my.registry.io:5000/foo:v1'' = ''5000/foo'' \<and>
   spec_split_last ''my.registry.io:5000/foo:v1'' = (''my.registry.io:5000/foo'', ''v1'') \<and>
   (image_of ''my.registry.io:5000/foo:v1'', tag_of ''my.registry.io:5000/foo:v1'')
     \<noteq> spec_split_last ''my.registry.io:5000/foo:v1''"
  by (simp add: image_of_def tag_of_def spec_split_last_def)

section \<open>The rewrite against the mirror table\<close>

lemma process_image_eq:
  "process_image (Some raw) m =
     Inr (Some
       (let img = image_of raw;
            stripped = rstrip CHR ''/'' img;
            segment = takeWhile (\<lambda>x. x \<noteq> CHR ''/'') stripped;
            rest = drop (Suc (length segment)) stripped
        in if m = [] then raw
           else if CHR ''.'' \<in> set img then
             (case map_of m segment of
                Some mirror \<Rightarrow> mirror @ ''/'' @ rest @ '':'' @ tag_of raw
              | None \<Rightarrow> raw)
           else
             (case map_of m ''default'' of
                Some mirror \<Rightarrow> if mirror = [] then raw else mirror @ ''/'' @ img @ '':'' @ tag_of raw
              | None \<Rightarrow> raw)))"
  using join_tl_split[of "CHR ''/''" "rstrip CHR ''/'' (image_of raw)"]
        hd_split[of "CHR ''/''" "rstrip CHR ''/'' (image_of raw)"]
  by (auto simp: process_image_def Let_def truthy_def py_str_def split: option.splits)

lemma process_image_spec_rewrite:
  assumes "CHR ''.'' \<in> set (image_of raw) \<longrightarrow>
             CHR ''.'' \<in> set (takeWhile (\<lambda>x. x \<noteq> CHR ''/'') (image_of raw))"
    and "rstrip CHR ''/'' (image_of raw) = image_of raw"
    and "map_of m ''default'' \<noteq> Some []"
  shows "process_image (Some raw) m = Inr (Some (spec_rewrite raw m))"
proof -
  have "CHR ''.'' \<in> set (takeWhile (\<lambda>x. x \<noteq> CHR ''/'') (image_of raw)) \<Longrightarrow> CHR ''.'' \<in> set (image_of raw)"
    by (meson set_takeWhileD)
  then show ?thesis using assms
    by (auto simp: process_image_eq spec_rewrite_def Let_def split: option.splits)
qed

text \<open>
  C4, as the script has it. With an empty table the string comes back unchanged.
  Otherwise the image (the text before the first colon) carries a registry exactly when
  it contains a dot ANYWHERE: its first path segment (after trailing slashes are
  stripped) is then looked up, a hit gives mirror, remaining path and tag, a miss gives
  the string unchanged and the default entry is not consulted. An image with no dot at
  all is prefixed with the default entry when that entry is a non-empty string. In every
  other case the string is unchanged. Where a dot in the image lies in its first
  segment, the image does not end in a slash and the default entry is not the empty
  string, this is the rule of the specification.
\<close>

theorem rewrite_dot_anywhere:
  "process_image (Some raw) m =
     Inr (Some
       (let img = image_of raw;
            stripped = rstrip CHR ''/'' img;
            segment = takeWhile (\<lambda>x. x \<noteq> CHR ''/'') stripped;
            rest = drop (Suc (length segment)) stripped
        in if m = [] then raw
           else if CHR ''.'' \<in> set img then
             (case map_of m segment of
                Some mirror \<Rightarrow> mirror @ ''/'' @ rest @ '':'' @ tag_of raw
              | None \<Rightarrow> raw)
           else
             (case map_of m ''default'' of
                Some mirror \<Rightarrow> if mirror = [] then raw else mirror @ ''/'' @ img @ '':'' @ tag_of raw
              | None \<Rightarrow> raw))) \<and>
   ((CHR ''.'' \<in> set (image_of raw) \<longrightarrow>
       CHR ''.'' \<in> set (takeWhile (\<lambda>x. x \<noteq> CHR ''/'') (image_of raw))) \<and>
    rstrip CHR ''/'' (image_of raw) = image_of raw \<and>
    map_of m ''default'' \<noteq> Some []
    \<longrightarrow> process_image (Some raw) m = Inr (Some (spec_rewrite raw m)))"
  using process_image_eq[of raw m] process_image_spec_rewrite[of raw m] by blast

theorem rewrite_dot_anywhere_witness:
  "CHR ''.'' \<in> set (takeWhile (\<lambda>x. x \<noteq> CHR ''/'') (image_of ''my.registry.io/foo/bar:v1'')) \<and>
   rstrip CHR ''/'' (image_of ''my.registry.io/foo/bar:v1'') = image_of ''my.registry.io/foo/bar:v1'' \<and>
   map_of [(''my.registry.io'', ''mirror.local'')] ''default'' \<noteq> Some [] \<and>
   process_image (Some ''my.registry.io/foo/bar:v1'') [(''my.registry.io'', ''mirror.local'')]
     = Inr (Some ''mirror.local/foo/bar:v1'') \<and>
   spec_rewrite ''my.registry.io/foo/bar:v1'' [(''my.registry.io'', ''mirror.local'')]
     = ''mirror.local/foo/bar:v1''"
  using rewrite_dot_anywhere[of "''my.registry.io/foo/bar:v1''" "[(''my.registry.io'', ''mirror.local'')]"]
  by (simp add: image_of_def tag_of_def rstrip_def spec_rewrite_def)

text \<open>
  C4 as stated fails where the dot is not in the first path segment: the first segment
  \<open>foo\<close> has no dot and the table has a default entry, yet the string is unchanged.
\<close>

theorem rewrite_first_segment_counterexample:
  "process_image (Some ''foo/bar.baz'') [(''default'', ''mirror.local'')] = Inr (Some ''foo/bar.baz'') \<and>
   spec_rewrite ''foo/bar.baz'' [(''default'', ''mirror.local'')] = ''mirror.local/foo/bar.baz:latest''"
  by (simp add: process_image_def image_of_def tag_of_def rstrip_def spec_rewrite_def)

text \<open>The examples of the specification for the rewrite.\<close>

lemma rewrite_examples:
  "process_image (Some ''my.registry.io/foo/bar:v1'') [(''my.registry.io'', ''mirror.local'')]
     = Inr (Some ''mirror.local/foo/bar:v1'')"
  "process_image (Some ''foo/bar'') [(''default'', ''mirror.local'')]
     = Inr (Some ''mirror.local/foo/bar:latest'')"
  "process_image (Some ''foo/bar:v2'') [] = Inr (Some ''foo/bar:v2'')"
  by (simp_all add: process_image_def image_of_def tag_of_def rstrip_def truthy_def py_str_def)

section \<open>The passes over one image spec\<close>

lemma replay_Nil [simp]: "replay ab d [] = d"
  by (simp add: replay_def)

lemma replay_Cons [simp]: "replay ab d ((v, x) # ws) = replay ab (ab d v x) ws"
  by (simp add: replay_def)

lemma replay_append: "replay ab d (ws @ ws') = replay ab (replay ab d ws) ws'"
  by (simp add: replay_def)

lemma replay_record_write: "replay record_write ws ws' = ws @ ws'"
  by (induction ws' arbitrary: ws) (auto simp: record_write_def)

lemma registry_pass_eq:
  "registry_pass rv ab p kvs (r, d) =
     (foldl (\<lambda>r' (k, v). if k = ''registry'' then rv v k else r') r kvs,
      replay ab d [(v, Some (p @ py_str (rv v k))). (k, v) \<leftarrow> kvs, k = ''registry'' \<and> truthy (rv v k)])"
  by (induction kvs arbitrary: r d) (auto simp: Let_def)

lemma repository_tag_pass_eq:
  "repository_tag_pass rv ab p registry kvs (rp, tg, d) =
     (foldl (\<lambda>rp' (k, v). if k = ''repository''
                            then (case map_of v ''name'' of Some n \<Rightarrow> Some n | None \<Rightarrow> rv v k)
                            else rp') rp kvs,
      foldl (\<lambda>tg' (k, v). if k = ''tag'' then rv v k else tg') tg kvs,
      replay ab d (concat (map (\<lambda>(k, v).
         if k = ''repository'' \<and> map_of v ''name'' = None
         then [(v, if truthy registry then rv v k else Some (p @ py_str (rv v k)))]
         else if k = ''tag'' then [(v, rv v k)] else []) kvs)))"
  by (induction kvs arbitrary: rp tg d) (auto simp: Let_def split: option.splits)

lemma remove_pass_eq:
  "remove_pass ab kvs d = replay ab d [(v, Some []). (k, v) \<leftarrow> kvs, k = ''remove'']"
  by (induction kvs arbitrary: d) auto

lemma image_fields_eq:
  "image_fields rv p kvs =
     (foldl (\<lambda>r' (k, v). if k = ''registry'' then rv v k else r') None kvs,
      foldl (\<lambda>rp' (k, v). if k = ''repository''
                            then (case map_of v ''name'' of Some n \<Rightarrow> Some n | None \<Rightarrow> rv v k)
                            else rp') None kvs,
      foldl (\<lambda>tg' (k, v). if k = ''tag'' then rv v k else tg') None kvs)"
  by (simp add: image_fields_def registry_pass_eq repository_tag_pass_eq)

lemma image_overrides_eq:
  "image_overrides rv p kvs =
     [(v, Some (p @ py_str (rv v k))). (k, v) \<leftarrow> kvs, k = ''registry'' \<and> truthy (rv v k)] @
     concat (map (\<lambda>(k, v).
         if k = ''repository'' \<and> map_of v ''name'' = None
         then [(v, if truthy (fst (image_fields rv p kvs)) then rv v k else Some (p @ py_str (rv v k)))]
         else if k = ''tag'' then [(v, rv v k)] else []) kvs) @
     [(v, Some []). (k, v) \<leftarrow> kvs, k = ''remove'']"
  by (simp add: image_overrides_def image_fields_eq registry_pass_eq repository_tag_pass_eq
        remove_pass_eq replay_record_write cong: if_cong)

lemma extract_image_eq:
  "extract_image rv ab p kvs (d, wip) =
     (case image_fields rv p kvs of (registry, repository, tag) \<Rightarrow>
        (case assemble_image registry repository tag of
           Inl e \<Rightarrow> Inl e
         | Inr img \<Rightarrow> Inr (replay ab d (image_overrides rv p kvs), wip @ [img])))"
  by (simp add: extract_image_def image_overrides_def image_fields_def registry_pass_eq
        repository_tag_pass_eq remove_pass_eq replay_record_write replay_append split: sum.splits)

lemma foldl_last_role:
  "foldl (\<lambda>r' (k, v). if k = role then f v else r') r kvs =
     (case filter (\<lambda>kv. fst kv = role) kvs of [] \<Rightarrow> r | vs \<Rightarrow> f (snd (last vs)))"
  by (induction kvs rule: rev_induct) (auto split: list.splits)

lemma registry_pass_filter:
  "registry_pass rv ab p (filter (\<lambda>(k, v). known_role k) kvs) st = registry_pass rv ab p kvs st"
  by (induction rv ab p kvs st rule: registry_pass.induct) (auto simp: known_role_def Let_def)

lemma repository_tag_pass_filter:
  "repository_tag_pass rv ab p r (filter (\<lambda>(k, v). known_role k) kvs) st = repository_tag_pass rv ab p r kvs st"
  by (induction rv ab p r kvs st rule: repository_tag_pass.induct)
     (auto simp: known_role_def Let_def split: option.splits)

lemma remove_pass_filter:
  "remove_pass ab (filter (\<lambda>(k, v). known_role k) kvs) d = remove_pass ab kvs d"
  by (induction ab kvs d rule: remove_pass.induct) (auto simp: known_role_def)

lemma extract_image_filter:
  "extract_image rv ab p (filter (\<lambda>(k, v). known_role k) kvs) st = extract_image rv ab p kvs st"
  by (cases st)
     (simp add: extract_image_def registry_pass_filter repository_tag_pass_filter remove_pass_filter
           split: prod.splits sum.splits)

lemma image_overrides_length:
  "length (image_overrides rv p kvs) =
     length (filter (\<lambda>(k, v). k = ''registry'' \<and> truthy (rv v k)) kvs) +
     length (filter (\<lambda>(k, v). k = ''repository'' \<and> map_of v ''name'' = None) kvs) +
     length (filter (\<lambda>(k, v). k = ''tag'') kvs) +
     length (filter (\<lambda>(k, v). k = ''remove'') kvs)"
proof -
  have a: "length [(v, Some (p @ py_str (rv v k))). (k, v) \<leftarrow> kvs, k = ''registry'' \<and> truthy (rv v k)]
          = length (filter (\<lambda>(k, v). k = ''registry'' \<and> truthy (rv v k)) kvs)"
    by (induction kvs) (auto split: if_splits)
  have b: "length (concat (map (\<lambda>(k, v).
         if k = ''repository'' \<and> map_of v ''name'' = None
         then [(v, f k v)]
         else if k = ''tag'' then [(v, rv v k)] else []) kvs))
          = length (filter (\<lambda>(k, v). k = ''repository'' \<and> map_of v ''name'' = None) kvs) +
            length (filter (\<lambda>(k, v). k = ''tag'') kvs)" for f :: "string \<Rightarrow> binding \<Rightarrow> pyval"
    by (induction kvs) (auto split: if_splits)
  have c: "length [(v, Some []). (k, v) \<leftarrow> kvs, k = ''remove'']
          = length (filter (\<lambda>(k, v). k = ''remove'') kvs)"
    by (induction kvs) (auto split: if_splits)
  show ?thesis
    unfolding image_overrides_eq length_append a c
    using b[of "\<lambda>k v. if truthy (fst (image_fields rv p kvs)) then rv v k else Some (p @ py_str (rv v k))"]
    by simp
qed

lemma assemble_image_None:
  "assemble_image registry None tag =
     (if truthy registry
      then Inr (Some (py_str registry @ ''/None'' @ (if truthy tag then '':'' @ py_str tag else [])))
      else if truthy tag then Inl TypeError else Inr None)"
  by (simp add: assemble_image_def py_str_def)

lemmas run_defs = parse_value_in_def add_branch_to_dict_def extract_image_def assemble_image_def
  truthy_def py_str_def record_write_def image_overrides_def image_fields_def replay_def Let_def

text \<open>
  C5. The overrides of one image spec are, in call order: for each registry binding that
  resolves to a non-empty value, the value with the destination prefix in front; for each
  repository binding without a literal name, the resolved value unprefixed when the
  registry variable holds a non-empty value after the first loop, and with the destination
  prefix in front otherwise; for each tag binding the resolved value; for each remove
  binding the empty string. The registry variable is what the last registry binding
  resolved to. The tree the extractor returns is this list fed to the adder.
\<close>

theorem repository_override_follows_registry:
  "image_overrides rv prefix image_data =
     [(v, Some (prefix @ py_str (rv v k))). (k, v) \<leftarrow> image_data, k = ''registry'' \<and> truthy (rv v k)] @
     concat (map (\<lambda>(k, v).
         if k = ''repository'' \<and> map_of v ''name'' = None
         then [(v, if truthy (fst (image_fields rv prefix image_data)) then rv v k
                   else Some (prefix @ py_str (rv v k)))]
         else if k = ''tag'' then [(v, rv v k)] else []) image_data) @
     [(v, Some []). (k, v) \<leftarrow> image_data, k = ''remove''] \<and>
   fst (image_fields rv prefix image_data) =
     (case filter (\<lambda>kv. fst kv = ''registry'') image_data of
        [] \<Rightarrow> None
      | vs \<Rightarrow> rv (snd (last vs)) ''registry'') \<and>
   (extract_image rv ab prefix image_data (d, wip) = Inr (d', wip')
      \<longrightarrow> d' = replay ab d (image_overrides rv prefix image_data))"
proof -
  have "fst (image_fields rv prefix image_data) =
          foldl (\<lambda>r' (k, v). if k = ''registry'' then rv v ''registry'' else r') None image_data"
    by (simp add: image_fields_eq cong: if_cong)
  then have "fst (image_fields rv prefix image_data) =
     (case filter (\<lambda>kv. fst kv = ''registry'') image_data of
        [] \<Rightarrow> None
      | vs \<Rightarrow> rv (snd (last vs)) ''registry'')"
    by (simp add: foldl_last_role[where f = "\<lambda>v. rv v ''registry''"])
  moreover have "extract_image rv ab prefix image_data (d, wip) = Inr (d', wip')
      \<longrightarrow> d' = replay ab d (image_overrides rv prefix image_data)"
    by (auto simp: extract_image_eq split: prod.splits sum.splits)
  ultimately show ?thesis using image_overrides_eq[of rv prefix image_data] by blast
qed

theorem repository_override_follows_registry_witness:
  "extract_image (parse_value_in (\<lambda>w. ecr_values) ''app'' ecr_chart ''main'') add_branch_to_dict
      ''999.dkr.ecr.example.com/'' ecr_image ([], [])
   = Inr ([(''image'', Dict [(''registry'', Leaf (Some ''999.dkr.ecr.example.com/123.dkr.ecr.example.com'')),
                             (''repository'', Leaf (Some ''app''))])],
          [Some ''123.dkr.ecr.example.com/app'']) \<and>
   [(''image'', Dict [(''registry'', Leaf (Some ''999.dkr.ecr.example.com/123.dkr.ecr.example.com'')),
                      (''repository'', Leaf (Some ''app''))])]
   = replay add_branch_to_dict []
       (image_overrides (parse_value_in (\<lambda>w. ecr_values) ''app'' ecr_chart ''main'')
          ''999.dkr.ecr.example.com/'' ecr_image) \<and>
   image_overrides (parse_value_in (\<lambda>w. ecr_values) ''app'' ecr_chart ''main'')
          ''999.dkr.ecr.example.com/'' ecr_image
   = [([(''location'', ''values''), (''path'', ''image.registry'')],
       Some ''999.dkr.ecr.example.com/123.dkr.ecr.example.com''),
      ([(''location'', ''values''), (''path'', ''image.repository'')], Some ''app'')]"
proof -
  have E: "extract_image (parse_value_in (\<lambda>w. ecr_values) ''app'' ecr_chart ''main'') add_branch_to_dict
      ''999.dkr.ecr.example.com/'' ecr_image ([], [])
   = Inr ([(''image'', Dict [(''registry'', Leaf (Some ''999.dkr.ecr.example.com/123.dkr.ecr.example.com'')),
                             (''repository'', Leaf (Some ''app''))])],
          [Some ''123.dkr.ecr.example.com/app''])"
    by (simp add: run_defs ecr_values_def ecr_image_def)
  have O: "image_overrides (parse_value_in (\<lambda>w. ecr_values) ''app'' ecr_chart ''main'')
          ''999.dkr.ecr.example.com/'' ecr_image
   = [([(''location'', ''values''), (''path'', ''image.registry'')],
       Some ''999.dkr.ecr.example.com/123.dkr.ecr.example.com''),
      ([(''location'', ''values''), (''path'', ''image.repository'')], Some ''app'')]"
    by (simp add: run_defs ecr_values_def ecr_image_def)
  from repository_override_follows_registry[of "parse_value_in (\<lambda>w. ecr_values) ''app'' ecr_chart ''main''"
      "''999.dkr.ecr.example.com/''" ecr_image add_branch_to_dict "[]" "[]"
      "[(''image'', Dict [(''registry'', Leaf (Some ''999.dkr.ecr.example.com/123.dkr.ecr.example.com'')),
                             (''repository'', Leaf (Some ''app''))])]" "[Some ''123.dkr.ecr.example.com/app'']"]
    E O show ?thesis by blast
qed

text \<open>The second example of the specification: no registry role, the repository takes the prefix.\<close>

lemma no_registry_example:
  "extract_image (parse_value_in (\<lambda>w. ecr_values) ''app'' ecr_chart ''main'') add_branch_to_dict
      ''999.dkr.ecr.example.com/'' [(''repository'', [(''path'', ''image.repository'')])] ([], [])
   = Inr ([(''image'', Dict [(''repository'', Leaf (Some ''999.dkr.ecr.example.com/app''))])],
          [Some ''app''])"
  by (simp add: run_defs ecr_values_def)


section \<open>The walk over the workloads\<close>

lemma walk_workload_Inr:
  assumes "walk_workload pv ab a w cs (ccv, wip) = Inr (ccv', wip')"
  shows "\<exists>d. ccv' = AList.update w \<lparr>w_helm = helm_of a cs, w_values = d\<rparr> ccv \<and>
             (cs_images cs = None \<longrightarrow> d = [] \<and> wip' = wip)"
  using assms by (auto simp: walk_workload_def split: option.splits sum.splits)

lemma walk_other:
  "walk pv ab a wl (ccv, wip) = Inr (ccv', wip') \<Longrightarrow> w \<notin> fst ` set wl \<Longrightarrow> map_of ccv' w = map_of ccv w"
proof (induction wl arbitrary: ccv wip)
  case Nil then show ?case by simp
next
  case (Cons x wl)
  obtain w0 cs0 where x: "x = (w0, cs0)" by (cases x)
  from Cons.prems(1) x obtain ccv1 wip1 where
    s: "walk_workload pv ab a w0 cs0 (ccv, wip) = Inr (ccv1, wip1)"
    and r: "walk pv ab a wl (ccv1, wip1) = Inr (ccv', wip')"
    by (auto split: sum.splits)
  from walk_workload_Inr[OF s] obtain d where
    "ccv1 = AList.update w0 \<lparr>w_helm = helm_of a cs0, w_values = d\<rparr> ccv" by blast
  moreover have "w \<noteq> w0" "w \<notin> fst ` set wl" using Cons.prems(2) x by auto
  ultimately show ?case using Cons.IH[OF r] by (simp add: update_conv')
qed

lemma walk_lookup:
  "walk pv ab a wl (ccv, wip) = Inr (ccv', wip') \<Longrightarrow> distinct (map fst wl) \<Longrightarrow> (w, cs) \<in> set wl \<Longrightarrow>
     \<exists>d. map_of ccv' w = Some \<lparr>w_helm = helm_of a cs, w_values = d\<rparr> \<and> (cs_images cs = None \<longrightarrow> d = [])"
proof (induction wl arbitrary: ccv wip)
  case Nil then show ?case by simp
next
  case (Cons x wl)
  obtain w0 cs0 where x: "x = (w0, cs0)" by (cases x)
  from Cons.prems(1) x obtain ccv1 wip1 where
    s: "walk_workload pv ab a w0 cs0 (ccv, wip) = Inr (ccv1, wip1)"
    and r: "walk pv ab a wl (ccv1, wip1) = Inr (ccv', wip')"
    by (auto split: sum.splits)
  from walk_workload_Inr[OF s] obtain d where
    d: "ccv1 = AList.update w0 \<lparr>w_helm = helm_of a cs0, w_values = d\<rparr> ccv"
       "cs_images cs0 = None \<longrightarrow> d = []" by auto
  show ?case
  proof (cases "(w, cs) = (w0, cs0)")
    case True
    then have "w \<notin> fst ` set wl" using Cons.prems(2) x by auto
    from walk_other[OF r this] d True show ?thesis by (simp add: update_conv')
  next
    case False
    then have "(w, cs) \<in> set wl" using Cons.prems(3) x by auto
    moreover have "distinct (map fst wl)" using Cons.prems(2) by simp
    ultimately show ?thesis using Cons.IH[OF r] by blast
  qed
qed

lemma walk_keys:
  "walk pv ab a wl (ccv, wip) = Inr (ccv', wip') \<Longrightarrow> fst ` set ccv' = fst ` set ccv \<union> fst ` set wl"
proof (induction wl arbitrary: ccv wip)
  case Nil then show ?case by simp
next
  case (Cons x wl)
  obtain w0 cs0 where x: "x = (w0, cs0)" by (cases x)
  from Cons.prems(1) x obtain ccv1 wip1 where
    s: "walk_workload pv ab a w0 cs0 (ccv, wip) = Inr (ccv1, wip1)"
    and r: "walk pv ab a wl (ccv1, wip1) = Inr (ccv', wip')"
    by (auto split: sum.splits)
  from walk_workload_Inr[OF s] obtain d where
    d: "ccv1 = AList.update w0 \<lparr>w_helm = helm_of a cs0, w_values = d\<rparr> ccv" by blast
  show ?case using Cons.IH[OF r] d x by (auto simp: dom_update)
qed

lemma walk_filter_images:
  "walk pv ab a wl (ccv, wip) = Inr (ccv', wip') \<Longrightarrow>
     \<exists>ccv''. walk pv ab a (filter has_images wl) (ccv0, wip) = Inr (ccv'', wip')"
proof (induction wl arbitrary: ccv ccv0 wip)
  case Nil then show ?case by simp
next
  case (Cons x wl)
  obtain w0 cs0 where x: "x = (w0, cs0)" by (cases x)
  from Cons.prems(1) x obtain ccv1 wip1 where
    s: "walk_workload pv ab a w0 cs0 (ccv, wip) = Inr (ccv1, wip1)"
    and r: "walk pv ab a wl (ccv1, wip1) = Inr (ccv', wip')"
    by (auto split: sum.splits)
  show ?case
  proof (cases "cs_images cs0")
    case None
    then have "wip1 = wip" using walk_workload_Inr[OF s] by blast
    then show ?thesis using Cons.IH[OF r[unfolded \<open>wip1 = wip\<close>], of ccv0] None x
      by (simp add: has_images_def)
  next
    case (Some imgs)
    from s Some obtain d where
      l: "images_loop (pv w0 cs0) ab (registry_prefix a) imgs ([], wip) = Inr (d, wip1)"
      by (auto simp: walk_workload_def split: sum.splits)
    then have "walk_workload pv ab a w0 cs0 (ccv0, wip)
       = Inr (AList.update w0 \<lparr>w_helm = helm_of a cs0, w_values = d\<rparr> ccv0, wip1)"
      using Some by (simp add: walk_workload_def)
    then show ?thesis
      using Cons.IH[OF r, of "AList.update w0 \<lparr>w_helm = helm_of a cs0, w_values = d\<rparr> ccv0"] Some x
      by (simp add: has_images_def)
  qed
qed

lemma cert_rule_lookup:
  assumes "cert_rule ccv = Inr ccv'" and "map_of ccv w = Some wo"
  shows "\<exists>wo'. map_of ccv' w = Some wo' \<and> w_helm wo' = w_helm wo \<and>
           (w_values wo' = w_values wo \<or> w_values wo' = AList.delete ''appVersion'' (w_values wo))"
  using assms
  by (auto simp: cert_rule_def update_conv' split: option.splits if_splits)

lemma map_of_Some_key: "map_of al k = Some v \<Longrightarrow> k \<in> fst ` set al"
  by (metis map_of_eq_None_iff option.distinct(1))

lemma cert_rule_keys:
  "cert_rule ccv = Inr ccv' \<Longrightarrow> map fst ccv' = map fst ccv"
  by (auto simp: cert_rule_def update_keys map_of_Some_key split: option.splits if_splits)

lemma main_Inr:
  assumes "main pv ab a ami ai dm wl = Inr out"
  obtains ccv wip es1 es2 ccv' where
    "walk pv ab a wl ([], map (\<lambda>(_, img). Some img) ai) = Inr (ccv, wip)"
    "\<not> sorted_images_raises wip"
    "rewrite_all (registry_prefix a) dm (map (\<lambda>(_, img). Some img) ai) = Inr es1"
    "rewrite_all (registry_prefix a) dm wip = Inr es2"
    "cert_rule ccv = Inr ccv'"
    "out = \<lparr>replication_result =
              \<lparr>m_ami_version = ami, m_charts = ccv',
               m_additional_images =
                 foldl (\<lambda>d (name, img). AList.update name (registry_prefix a @ img) d) [] ai\<rparr>,
            updated_images = es1 @ es2\<rparr>"
  using assms unfolding main_def Let_def
  by (auto split: sum.splits prod.splits if_splits)

section \<open>The last path segment and the frame of the replicate-charts flag\<close>

lemma split_singleton: "split c s = [w] \<Longrightarrow> c \<notin> set s \<and> w = s"
  by (induction s arbitrary: w) (auto split: if_splits list.splits simp: split_not_Nil)

lemma last_split: "last (split c s) = rev (takeWhile (\<lambda>x. x \<noteq> c) (rev s))"
proof (induction s)
  case Nil show ?case by simp
next
  case (Cons x xs)
  show ?case
  proof (cases "x = c")
    case True
    then show ?thesis using Cons by (simp add: split_not_Nil takeWhile_tail)
  next
    case False
    obtain w ws where ws: "split c xs = w # ws"
      using split_not_Nil[of c xs] by (cases "split c xs") auto
    show ?thesis
    proof (cases ws)
      case Nil
      then have "c \<notin> set xs" "w = xs" using split_singleton[of c xs w] ws by auto
      then show ?thesis using False ws Nil by (simp add: takeWhile_neq_all takeWhile_append)
    next
      case (Cons y ys)
      have "c \<in> set xs"
      proof (rule ccontr)
        assume "c \<notin> set xs"
        then have "split c xs = [xs]" by (rule split_no_sep)
        then show False using ws Cons by simp
      qed
      then have "takeWhile (\<lambda>x. x \<noteq> c) (rev xs @ [x]) = takeWhile (\<lambda>x. x \<noteq> c) (rev xs)"
        by (auto simp: takeWhile_append)
      then show ?thesis using False ws Cons Cons.IH by simp
    qed
  qed
qed

lemma proj_update:
  "map (\<lambda>(workload, w). (workload, w_values w)) (AList.update k v al) =
     AList.update k (w_values v) (map (\<lambda>(workload, w). (workload, w_values w)) al)"
  by (induction al) auto

lemma proj_lookup:
  "map_of (map (\<lambda>(workload, w). (workload, w_values w)) al) k = map_option w_values (map_of al k)"
  by (induction al) auto

lemma walk_workload_frame:
  assumes "registry_prefix a1 = registry_prefix a2"
    and "map (\<lambda>(workload, w). (workload, w_values w)) ccv1 = map (\<lambda>(workload, w). (workload, w_values w)) ccv2"
  shows "map_sum id (\<lambda>(ccv, wip). (map (\<lambda>(workload, w). (workload, w_values w)) ccv, wip))
           (walk_workload pv ab a1 w cs (ccv1, wip)) =
         map_sum id (\<lambda>(ccv, wip). (map (\<lambda>(workload, w). (workload, w_values w)) ccv, wip))
           (walk_workload pv ab a2 w cs (ccv2, wip))"
  using assms by (auto simp: walk_workload_def proj_update split: option.splits sum.splits)

lemma walk_frame:
  assumes "registry_prefix a1 = registry_prefix a2"
  shows "map (\<lambda>(workload, w). (workload, w_values w)) ccv1 = map (\<lambda>(workload, w). (workload, w_values w)) ccv2 \<Longrightarrow>
         map_sum id (\<lambda>(ccv, wip). (map (\<lambda>(workload, w). (workload, w_values w)) ccv, wip))
           (walk pv ab a1 wl (ccv1, wip)) =
         map_sum id (\<lambda>(ccv, wip). (map (\<lambda>(workload, w). (workload, w_values w)) ccv, wip))
           (walk pv ab a2 wl (ccv2, wip))"
proof (induction wl arbitrary: ccv1 ccv2 wip)
  case Nil then show ?case by simp
next
  case (Cons x wl)
  obtain w0 cs0 where x: "x = (w0, cs0)" by (cases x)
  note f = walk_workload_frame[OF assms Cons.prems, of pv ab w0 cs0 wip]
  show ?case
  proof (cases "walk_workload pv ab a1 w0 cs0 (ccv1, wip)")
    case (Inl e)
    then have "walk_workload pv ab a2 w0 cs0 (ccv2, wip) = Inl e"
      using f by (cases "walk_workload pv ab a2 w0 cs0 (ccv2, wip)") auto
    then show ?thesis using Inl x by simp
  next
    case (Inr st1)
    obtain c1 w1 where st1: "st1 = (c1, w1)" by (cases st1)
    obtain c2 where r2: "walk_workload pv ab a2 w0 cs0 (ccv2, wip) = Inr (c2, w1)"
      and p: "map (\<lambda>(workload, w). (workload, w_values w)) c1 = map (\<lambda>(workload, w). (workload, w_values w)) c2"
      using f Inr st1 by (cases "walk_workload pv ab a2 w0 cs0 (ccv2, wip)") auto
    show ?thesis using Inr st1 r2 x Cons.IH[OF p, of w1] by simp
  qed
qed

lemma cert_rule_frame:
  assumes "map (\<lambda>(workload, w). (workload, w_values w)) ccv1 = map (\<lambda>(workload, w). (workload, w_values w)) ccv2"
  shows "map_sum id (map (\<lambda>(workload, w). (workload, w_values w))) (cert_rule ccv1) =
         map_sum id (map (\<lambda>(workload, w). (workload, w_values w))) (cert_rule ccv2)"
proof -
  have l: "map_option w_values (map_of ccv1 k) = map_option w_values (map_of ccv2 k)" for k
    using assms proj_lookup[of ccv1 k] proj_lookup[of ccv2 k] by simp
  show ?thesis
  proof (cases "map_of ccv1 ''cert_manager''")
    case None
    then have "map_of ccv2 ''cert_manager'' = None" using l[of "''cert_manager''"] by simp
    then show ?thesis using None by (simp add: cert_rule_def)
  next
    case (Some x1)
    then obtain x2 where s2: "map_of ccv2 ''cert_manager'' = Some x2" and v: "w_values x1 = w_values x2"
      using l[of "''cert_manager''"] by (cases "map_of ccv2 ''cert_manager''") auto
    show ?thesis using Some s2 v assms
      by (auto simp: cert_rule_def proj_update split: option.splits)
  qed
qed

lemma main_frame:
  assumes "registry_prefix a1 = registry_prefix a2"
  shows "map_sum id without_helm (main pv ab a1 ami ai dm wl) = map_sum id without_helm (main pv ab a2 ami ai dm wl)"
proof -
  let ?wip0 = "map (\<lambda>(_, img). Some img) ai"
  note f = walk_frame[OF assms, of "[]" "[]" pv ab wl ?wip0, simplified]
  show ?thesis
  proof (cases "walk pv ab a1 wl ([], ?wip0)")
    case (Inl e)
    then have "walk pv ab a2 wl ([], ?wip0) = Inl e"
      using f by (cases "walk pv ab a2 wl ([], ?wip0)") auto
    then show ?thesis using Inl by (simp add: main_def)
  next
    case (Inr st1)
    obtain c1 w1 where st1: "st1 = (c1, w1)" by (cases st1)
    obtain c2 where r2: "walk pv ab a2 wl ([], ?wip0) = Inr (c2, w1)"
      and p: "map (\<lambda>(workload, w). (workload, w_values w)) c1 = map (\<lambda>(workload, w). (workload, w_values w)) c2"
      using f Inr st1 by (cases "walk pv ab a2 wl ([], ?wip0)") auto
    note c = cert_rule_frame[OF p]
    show ?thesis
    proof (cases "cert_rule c1")
      case (Inl e)
      then have "cert_rule c2 = Inl e" using c by (cases "cert_rule c2") auto
      then show ?thesis using Inl Inr st1 r2 assms
        by (simp add: main_def Let_def split: sum.splits)
    next
      case (Inr c1')
      then obtain c2' where "cert_rule c2 = Inr c2'"
        and "map (\<lambda>(workload, w). (workload, w_values w)) c1' = map (\<lambda>(workload, w). (workload, w_values w)) c2'"
        using c by (cases "cert_rule c2") auto
      then show ?thesis using Inr \<open>walk pv ab a1 wl ([], ?wip0) = Inr st1\<close> st1 r2 assms
        by (simp add: main_def Let_def without_helm_def split: sum.splits)
    qed
  qed
qed

section \<open>The image mapping list follows images_wip\<close>

text \<open>
  The targets of the list that main writes: the additional images in declared order, then
  \<^verbatim>\<open>images_wip\<close> as the walk left it, which starts with the additional images
  again (lines 37-38) and goes on with the coordinates of the charts in extraction order.
\<close>

lemma rewrite_all_targets:
  "rewrite_all prefix dm imgs = Inr es \<Longrightarrow> map target es = map (\<lambda>i. prefix @ py_str i) imgs"
  by (induction imgs arbitrary: es) (auto split: sum.splits)

lemma walk_workload_extends:
  "walk_workload pv ab a w cs (ccv, wip) = Inr (ccv', wip') \<Longrightarrow> \<exists>new. wip' = wip @ new"
proof -
  have l: "images_loop rv ab p imgs (d, wp) = Inr (d', wp') \<Longrightarrow> \<exists>new. wp' = wp @ new"
    for rv p imgs and d d' :: dict and wp wp'
  proof (induction imgs arbitrary: d wp)
    case Nil then show ?case by simp
  next
    case (Cons x imgs)
    obtain n kvs where x: "x = (n, kvs)" by (cases x)
    from Cons.prems x obtain d1 wp1 where
      e: "extract_image (rv n) ab p kvs (d, wp) = Inr (d1, wp1)"
      and r: "images_loop rv ab p imgs (d1, wp1) = Inr (d', wp')"
      by (auto split: sum.splits)
    from e obtain img where "wp1 = wp @ [img]"
      by (auto simp: extract_image_eq split: prod.splits sum.splits)
    then show ?case using Cons.IH[OF r] by auto
  qed
  assume "walk_workload pv ab a w cs (ccv, wip) = Inr (ccv', wip')"
  then show ?thesis using l
    by (auto simp: walk_workload_def split: option.splits sum.splits)
qed

lemma walk_extends:
  "walk pv ab a wl (ccv, wip) = Inr (ccv', wip') \<Longrightarrow> \<exists>new. wip' = wip @ new"
proof (induction wl arbitrary: ccv wip)
  case Nil then show ?case by simp
next
  case (Cons x wl)
  obtain w0 cs0 where x: "x = (w0, cs0)" by (cases x)
  from Cons.prems x obtain ccv1 wip1 where
    s: "walk_workload pv ab a w0 cs0 (ccv, wip) = Inr (ccv1, wip1)"
    and r: "walk pv ab a wl (ccv1, wip1) = Inr (ccv', wip')"
    by (auto split: sum.splits)
  from walk_workload_extends[OF s] Cons.IH[OF r] show ?case by auto
qed

lemma main_mapping_list:
  assumes "main pv ab a ami ai dm wl = Inr out"
  shows "\<exists>chart_images.
           map target (updated_images out) =
             map (\<lambda>(_, img). registry_prefix a @ img) ai @
             map (\<lambda>(_, img). registry_prefix a @ img) ai @
             map (\<lambda>i. registry_prefix a @ py_str i) chart_images"
proof -
  from assms obtain ccv wip es1 es2 where
    W: "walk pv ab a wl ([], map (\<lambda>(_, img). Some img) ai) = Inr (ccv, wip)"
    and E1: "rewrite_all (registry_prefix a) dm (map (\<lambda>(_, img). Some img) ai) = Inr es1"
    and E2: "rewrite_all (registry_prefix a) dm wip = Inr es2"
    and O: "updated_images out = es1 @ es2"
    by (rule main_Inr) simp
  from walk_extends[OF W] obtain new where N: "wip = map (\<lambda>(_, img). Some img) ai @ new" by blast
  have c: "map (\<lambda>i. registry_prefix a @ py_str i) (map (\<lambda>(_, img). Some img) ai)
             = map (\<lambda>(_, img). registry_prefix a @ img) ai"
    by (induction ai) (auto simp: py_str_def)
  show ?thesis
    using rewrite_all_targets[OF E1] rewrite_all_targets[OF E2] O N c by auto
qed

section \<open>Closed forms of the extractor and of the end of main\<close>





lemma rewrite_all_None_head:
  "dm \<noteq> [] \<Longrightarrow> rewrite_all p dm (None # rest) = Inl AttributeError"
  by (simp add: process_image_def)

lemma all_None:
  "\<not> list_ex (\<lambda>x. x \<noteq> None) xs \<Longrightarrow> xs = replicate (length xs) None"
  by (induction xs) auto


lemma main_reaches_rule:
  assumes "walk pv ab a wl ([], map (\<lambda>(_, img). Some img) ai) = Inr (ccv, wip)"
    and "\<not> sorted_images_raises wip"
    and "rewrite_all (registry_prefix a) dm (map (\<lambda>(_, img). Some img) ai) = Inr esa"
    and "rewrite_all (registry_prefix a) dm wip = Inr esw"
  shows "main pv ab a ami ai dm wl =
           map_sum id
             (\<lambda>ccv'. \<lparr>replication_result =
                         \<lparr>m_ami_version = ami, m_charts = ccv',
                          m_additional_images =
                            foldl (\<lambda>d (name, img). AList.update name (registry_prefix a @ img) d) [] ai\<rparr>,
                       updated_images = esa @ esw\<rparr>)
             (cert_rule ccv)"
    and "error_log pv ab a ai dm wl = (case cert_rule ccv of Inl e \<Rightarrow> [e] | Inr ccv' \<Rightarrow> [])"
  using assms by (simp_all add: main_def error_log_def split: sum.splits)

section \<open>Catalogs restricted to the four roles\<close>

lemma images_loop_filter:
  "images_loop rvs ab prefix
     (map (\<lambda>(image_name, kvs). (image_name, filter (\<lambda>(k, v). known_role k) kvs)) imgs) st
   = images_loop rvs ab prefix imgs st"
  by (induction imgs arbitrary: st) (auto simp: extract_image_filter split: sum.splits)

lemma walk_workload_known:
  assumes "\<forall>workload vals image_name. pv workload (known_roles_only vals) image_name = pv workload vals image_name"
  shows "walk_workload pv ab a w (known_roles_only cs) st = walk_workload pv ab a w cs st"
proof -
  have p: "pv w (known_roles_only cs) = pv w cs" using assms by (simp add: fun_eq_iff)
  have h: "helm_of a (known_roles_only cs) = helm_of a cs"
    by (simp add: helm_of_def known_roles_only_def)
  obtain ccv wip where st: "st = (ccv, wip)" by (cases st)
  show ?thesis
  proof (cases "cs_images cs")
    case None
    then show ?thesis using h st by (simp add: walk_workload_def known_roles_only_def)
  next
    case (Some imgs)
    then have "cs_images (known_roles_only cs)
      = Some (map (\<lambda>(image_name, kvs). (image_name, filter (\<lambda>(k, v). known_role k) kvs)) imgs)"
      by (simp add: known_roles_only_def)
    then show ?thesis using Some h p st
      by (simp add: walk_workload_def images_loop_filter split: sum.splits prod.splits)
  qed
qed

lemma walk_known:
  assumes "\<forall>workload vals image_name. pv workload (known_roles_only vals) image_name = pv workload vals image_name"
  shows "walk pv ab a (map (\<lambda>(workload, vals). (workload, known_roles_only vals)) wl) st = walk pv ab a wl st"
  by (induction wl arbitrary: st) (auto simp: walk_workload_known[OF assms] split: sum.splits)

section \<open>Runs of main\<close>

lemmas main_defs = main_def walk_workload_def helm_of_def cert_rule_def sorted_images_raises_def
  tree_truthy_def process_image_def run_defs

lemmas cat_defs = cm_parsed_def cm_chart_def cm_image_def web_chart_def plain_chart_def example_args_def
  cm_chart_blank_def cm_image_blank_def cm_chart_digest_def cm_image_digest_def
  cm_chart_untagged_def cm_image_untagged_def bare_chart_def bare_image_def

text \<open>
  C1. The claim asks for the chart-derived images deduplicated and sorted after the
  additional images. Line 169 computes \<^verbatim>\<open>sorted(set(images_wip))\<close> but the loop of
  line 192 runs over \<^verbatim>\<open>images_wip\<close> itself. On a catalog without additional images
  whose charts yield the coordinates cert-manager-controller, nginx, busybox, nginx, the
  script emits four entries in that order: nginx twice, busybox after nginx.
\<close>

theorem image_mapping_list_not_deduplicated:
  "map_sum id updated_images
     (main (parse_value_in cm_parsed) add_branch_to_dict example_args ''1.21.0'' [] []
        [(''cert_manager'', cm_chart), (''web'', web_chart)]) = Inr
   [\<lparr>src = Some ''quay.io/jetstack/cert-manager-controller:v1.5.3'',
      target = ''999.dkr.ecr.example.com/quay.io/jetstack/cert-manager-controller:v1.5.3''\<rparr>,
    \<lparr>src = Some ''nginx'', target = ''999.dkr.ecr.example.com/nginx''\<rparr>,
    \<lparr>src = Some ''busybox'', target = ''999.dkr.ecr.example.com/busybox''\<rparr>,
    \<lparr>src = Some ''nginx'', target = ''999.dkr.ecr.example.com/nginx''\<rparr>]"
  by (simp add: main_defs cat_defs)

text \<open>
  C7 as stated fails: a run whose cert-manager image spec carries a role \<open>digest\<close>
  returns and writes its image mapping list.
\<close>

theorem unknown_role_counterexample:
  "\<not> known_role ''digest'' \<and>
   (''digest'', [(''location'', ''values''), (''path'', ''image.digest'')]) \<in> set cm_image_digest \<and>
   map_sum id updated_images
     (main (parse_value_in cm_parsed) add_branch_to_dict example_args ''1.21.0'' [] []
        [(''cert_manager'', cm_chart_digest)]) = Inr
   [\<lparr>src = Some ''quay.io/jetstack/cert-manager-controller:v1.5.3'',
      target = ''999.dkr.ecr.example.com/quay.io/jetstack/cert-manager-controller:v1.5.3''\<rparr>]"
  by (simp add: main_defs cat_defs known_role_def)

text \<open>
  C8. When main returns, the charts document has exactly the workloads of the catalog as
  its keys; for a catalog with distinct keys, each workload's entry carries the helm block
  of its chart spec: name, repository and version of the spec with no
  \<^verbatim>\<open>srcRepository\<close> when charts are not replicated, and with the repository
  rewritten and \<^verbatim>\<open>srcRepository\<close> added when they are. A workload without an
  \<^verbatim>\<open>images\<close> key has an empty values tree. Such workloads add nothing to the raw
  image list: the walk over the workloads that have images yields the same list.
\<close>

theorem every_workload_in_charts:
  "(main pv ab a ami ai dm wl = Inr out \<and> distinct (map fst wl) \<and> (w, cs) \<in> set wl \<longrightarrow>
      (\<exists>wo. map_of (m_charts (replication_result out)) w = Some wo \<and>
            w_helm wo = helm_of a cs \<and>
            w_helm wo =
              (if replicate_charts a
               then \<lparr>h_name = cs_name cs,
                     h_repository =
                       ''oci://'' @ registry_prefix a
                       @ rev (takeWhile (\<lambda>x. x \<noteq> CHR ''/'')
                                (dropWhile (\<lambda>x. x = CHR ''/'') (rev (cs_repository cs))))
                       @ ''/'' @ cs_name cs,
                     h_version = cs_version cs,
                     h_srcRepository = Some (cs_repository cs)\<rparr>
               else \<lparr>h_name = cs_name cs, h_repository = cs_repository cs,
                     h_version = cs_version cs, h_srcRepository = None\<rparr>) \<and>
            h_name (w_helm wo) = cs_name cs \<and> h_version (w_helm wo) = cs_version cs \<and>
            (cs_images cs = None \<longrightarrow> w_values wo = []))) \<and>
   (main pv ab a ami ai dm wl = Inr out \<longrightarrow>
      set (map fst (m_charts (replication_result out))) = set (map fst wl)) \<and>
   (walk pv ab a wl (ccv, wip) = Inr (ccv', wip') \<longrightarrow>
      (\<exists>ccv''. walk pv ab a (filter has_images wl) (ccv, wip) = Inr (ccv'', wip')))"
proof -
  have 1: "\<exists>wo. map_of (m_charts (replication_result out)) w = Some wo \<and>
            w_helm wo = helm_of a cs \<and>
            w_helm wo =
              (if replicate_charts a
               then \<lparr>h_name = cs_name cs,
                     h_repository =
                       ''oci://'' @ registry_prefix a
                       @ rev (takeWhile (\<lambda>x. x \<noteq> CHR ''/'')
                                (dropWhile (\<lambda>x. x = CHR ''/'') (rev (cs_repository cs))))
                       @ ''/'' @ cs_name cs,
                     h_version = cs_version cs,
                     h_srcRepository = Some (cs_repository cs)\<rparr>
               else \<lparr>h_name = cs_name cs, h_repository = cs_repository cs,
                     h_version = cs_version cs, h_srcRepository = None\<rparr>) \<and>
            h_name (w_helm wo) = cs_name cs \<and> h_version (w_helm wo) = cs_version cs \<and>
            (cs_images cs = None \<longrightarrow> w_values wo = [])"
    if M: "main pv ab a ami ai dm wl = Inr out" and D: "distinct (map fst wl)" and I: "(w, cs) \<in> set wl"
  proof -
    from M obtain c wp c' where W: "walk pv ab a wl ([], map (\<lambda>(_, img). Some img) ai) = Inr (c, wp)"
      and C: "cert_rule c = Inr c'" and O: "m_charts (replication_result out) = c'"
      by (rule main_Inr) simp
    from walk_lookup[OF W D I] obtain d where
      d: "map_of c w = Some \<lparr>w_helm = helm_of a cs, w_values = d\<rparr>" "cs_images cs = None \<longrightarrow> d = []"
      by auto
    from cert_rule_lookup[OF C d(1)] obtain wo' where
      "map_of c' w = Some wo'" "w_helm wo' = helm_of a cs"
      "w_values wo' = d \<or> w_values wo' = AList.delete ''appVersion'' d"
      by auto
    then show ?thesis using d(2) O
      by (auto simp: helm_of_def last_split rstrip_def AList.delete_eq)
  qed
  have 2: "set (map fst (m_charts (replication_result out))) = set (map fst wl)"
    if M: "main pv ab a ami ai dm wl = Inr out"
  proof -
    from M obtain c wp c' where W: "walk pv ab a wl ([], map (\<lambda>(_, img). Some img) ai) = Inr (c, wp)"
      and C: "cert_rule c = Inr c'" and O: "m_charts (replication_result out) = c'"
      by (rule main_Inr) simp
    show ?thesis using walk_keys[OF W] cert_rule_keys[OF C] O by simp
  qed
  show ?thesis using 1 2 walk_filter_images[of pv ab a wl ccv wip ccv' wip' ccv] by blast
qed

theorem every_workload_in_charts_witness:
  "distinct (map fst [(''cert_manager'', cm_chart), (''plain'', plain_chart)]) \<and>
   (''plain'', plain_chart) \<in> set [(''cert_manager'', cm_chart), (''plain'', plain_chart)] \<and>
   cs_images plain_chart = None \<and>
   (case main (parse_value_in cm_parsed) add_branch_to_dict example_args ''1.21.0''
           [(''pause'', ''k8s.gcr.io/pause:3.5'')] []
           [(''cert_manager'', cm_chart), (''plain'', plain_chart)] of
      Inl e \<Rightarrow> False
    | Inr out \<Rightarrow>
        (\<exists>wo. map_of (m_charts (replication_result out)) ''plain'' = Some wo \<and>
              w_helm wo = \<lparr>h_name = ''plain'', h_repository = ''https://charts.example.com/plain/'',
                           h_version = ''0.3.0'', h_srcRepository = None\<rparr> \<and>
              w_values wo = []) \<and>
        set (map fst (m_charts (replication_result out))) = {''cert_manager'', ''plain''}) \<and>
   (case walk (parse_value_in cm_parsed) add_branch_to_dict example_args
           [(''cert_manager'', cm_chart), (''plain'', plain_chart)] ([], []) of
      Inl e \<Rightarrow> False
    | Inr (ccv', wip') \<Rightarrow>
        (\<exists>ccv''. walk (parse_value_in cm_parsed) add_branch_to_dict example_args
                   (filter has_images [(''cert_manager'', cm_chart), (''plain'', plain_chart)]) ([], [])
                 = Inr (ccv'', wip')))"
proof -
  let ?wl = "[(''cert_manager'', cm_chart), (''plain'', plain_chart)]"
  obtain out where M: "main (parse_value_in cm_parsed) add_branch_to_dict example_args ''1.21.0''
           [(''pause'', ''k8s.gcr.io/pause:3.5'')] [] ?wl = Inr out"
    by (cases "main (parse_value_in cm_parsed) add_branch_to_dict example_args ''1.21.0''
           [(''pause'', ''k8s.gcr.io/pause:3.5'')] [] ?wl") (simp_all add: main_defs cat_defs)
  obtain c wp where W: "walk (parse_value_in cm_parsed) add_branch_to_dict example_args ?wl ([], []) = Inr (c, wp)"
    by (cases "walk (parse_value_in cm_parsed) add_branch_to_dict example_args ?wl ([], [])")
       (simp_all add: main_defs cat_defs)
  have D: "distinct (map fst ?wl)" "(''plain'', plain_chart) \<in> set ?wl" "cs_images plain_chart = None"
    "cs_name plain_chart = ''plain''" "cs_version plain_chart = ''0.3.0''"
    "cs_repository plain_chart = ''https://charts.example.com/plain/''"
    "replicate_charts example_args = False"
    by (simp_all add: plain_chart_def example_args_def)
  from every_workload_in_charts[where pv = "parse_value_in cm_parsed" and ab = add_branch_to_dict
      and a = example_args and ami = "''1.21.0''" and ai = "[(''pause'', ''k8s.gcr.io/pause:3.5'')]"
      and dm = "[]" and wl = ?wl and out = out and w = "''plain''" and cs = plain_chart
      and ccv = "[]" and wip = "[]" and ccv' = c and wip' = wp] M W D
  show ?thesis by auto
qed

text \<open>
  C9. With the flag false the helm block is name, source repository and version, with no
  \<^verbatim>\<open>srcRepository\<close>. With the flag true \<^verbatim>\<open>srcRepository\<close> is the source
  repository and the repository is \<open>oci://\<close>, the destination prefix, the last path
  segment of the source repository (trailing slashes stripped), a slash and the chart
  name. Everything else in the two files, and whether the run raises, is the same for both
  values of the flag. For a catalog with distinct keys the helm block in the manifest is
  the one built from the chart spec.
\<close>

theorem replicate_charts_frame:
  "helm_of (a\<lparr>replicate_charts := False\<rparr>) cs =
     \<lparr>h_name = cs_name cs, h_repository = cs_repository cs, h_version = cs_version cs,
      h_srcRepository = None\<rparr> \<and>
   helm_of (a\<lparr>replicate_charts := True\<rparr>) cs =
     \<lparr>h_name = cs_name cs,
      h_repository = ''oci://'' @ registry_prefix a
                     @ rev (takeWhile (\<lambda>x. x \<noteq> CHR ''/'') (rev (rstrip CHR ''/'' (cs_repository cs))))
                     @ ''/'' @ cs_name cs,
      h_version = cs_version cs,
      h_srcRepository = Some (cs_repository cs)\<rparr> \<and>
   map_sum id without_helm (main pv ab (a\<lparr>replicate_charts := True\<rparr>) ami ai dm wl) =
     map_sum id without_helm (main pv ab (a\<lparr>replicate_charts := False\<rparr>) ami ai dm wl) \<and>
   (main pv ab a ami ai dm wl = Inr out \<and> distinct (map fst wl) \<and> (w, cs) \<in> set wl \<longrightarrow>
      map_option w_helm (map_of (m_charts (replication_result out)) w) = Some (helm_of a cs))"
proof -
  have 4: "map_option w_helm (map_of (m_charts (replication_result out)) w) = Some (helm_of a cs)"
    if M: "main pv ab a ami ai dm wl = Inr out" and D: "distinct (map fst wl)" and I: "(w, cs) \<in> set wl"
  proof -
    from M obtain c wp c' where W: "walk pv ab a wl ([], map (\<lambda>(_, img). Some img) ai) = Inr (c, wp)"
      and C: "cert_rule c = Inr c'" and O: "m_charts (replication_result out) = c'"
      by (rule main_Inr) simp
    from walk_lookup[OF W D I] obtain d where
      d: "map_of c w = Some \<lparr>w_helm = helm_of a cs, w_values = d\<rparr>" by auto
    from cert_rule_lookup[OF C d(1)] show ?thesis using O by auto
  qed
  have 3: "map_sum id without_helm (main pv ab (a\<lparr>replicate_charts := True\<rparr>) ami ai dm wl) =
     map_sum id without_helm (main pv ab (a\<lparr>replicate_charts := False\<rparr>) ami ai dm wl)"
    by (rule main_frame) simp
  show ?thesis using 3 4 by (simp add: helm_of_def last_split)
qed

theorem replicate_charts_frame_witness:
  "distinct (map fst [(''cert_manager'', cm_chart), (''plain'', plain_chart)]) \<and>
   (''plain'', plain_chart) \<in> set [(''cert_manager'', cm_chart), (''plain'', plain_chart)] \<and>
   (case main (parse_value_in cm_parsed) add_branch_to_dict (example_args\<lparr>replicate_charts := True\<rparr>) ''1.21.0''
           [(''pause'', ''k8s.gcr.io/pause:3.5'')] []
           [(''cert_manager'', cm_chart), (''plain'', plain_chart)] of
      Inl e \<Rightarrow> False
    | Inr out \<Rightarrow>
        map_option w_helm (map_of (m_charts (replication_result out)) ''plain'')
          = Some \<lparr>h_name = ''plain'',
                  h_repository = ''oci://999.dkr.ecr.example.com/plain/plain'',
                  h_version = ''0.3.0'',
                  h_srcRepository = Some ''https://charts.example.com/plain/''\<rparr>)"
proof -
  let ?wl = "[(''cert_manager'', cm_chart), (''plain'', plain_chart)]"
  let ?a = "example_args\<lparr>replicate_charts := True\<rparr>"
  obtain out where M: "main (parse_value_in cm_parsed) add_branch_to_dict ?a ''1.21.0''
           [(''pause'', ''k8s.gcr.io/pause:3.5'')] [] ?wl = Inr out"
    by (cases "main (parse_value_in cm_parsed) add_branch_to_dict ?a ''1.21.0''
           [(''pause'', ''k8s.gcr.io/pause:3.5'')] [] ?wl") (simp_all add: main_defs cat_defs)
  have D: "distinct (map fst ?wl)" "(''plain'', plain_chart) \<in> set ?wl"
    by simp_all
  have H: "helm_of ?a plain_chart = \<lparr>h_name = ''plain'',
                  h_repository = ''oci://999.dkr.ecr.example.com/plain/plain'',
                  h_version = ''0.3.0'',
                  h_srcRepository = Some ''https://charts.example.com/plain/''\<rparr>"
    by (simp add: helm_of_def plain_chart_def example_args_def rstrip_def)
  from replicate_charts_frame[where pv = "parse_value_in cm_parsed" and ab = add_branch_to_dict
      and a = ?a and ami = "''1.21.0''" and ai = "[(''pause'', ''k8s.gcr.io/pause:3.5'')]"
      and dm = "[]" and wl = ?wl and out = out and w = "''plain''" and cs = plain_chart] M D
  have R: "map_option w_helm (map_of (m_charts (replication_result out)) ''plain'') = Some (helm_of ?a plain_chart)"
    by blast
  show ?thesis using D by (simp add: M R H)
qed

text \<open>
  C6, as the script has it. When main reaches the custom rule and the cert_manager values
  hold \<^verbatim>\<open>appVersion\<close>, main returns, nothing is logged as an error and the exit
  status is 0: a truthy value is deleted from the manifest, a falsy value (the empty
  string, \<^verbatim>\<open>None\<close>) is kept. When there is no cert_manager workload, or its values
  have no \<^verbatim>\<open>appVersion\<close> key, the rule raises KeyError, the error is logged, main
  raises it again, the exit status is 1 and neither file is written. A manifest that is
  written never holds a truthy \<^verbatim>\<open>appVersion\<close> for cert_manager.
\<close>

theorem cert_rule_truthy_only:
  "(main pv ab a ami ai dm wl = Inr out \<longrightarrow>
      (\<exists>w. map_of (m_charts (replication_result out)) ''cert_manager'' = Some w \<and>
           (\<forall>t. map_of (w_values w) ''appVersion'' = Some t \<longrightarrow> \<not> tree_truthy t))) \<and>
   (walk pv ab a wl ([], map (\<lambda>(_, img). Some img) ai) = Inr (ccv, wip) \<and>
    (map_of ccv ''cert_manager'' = None \<or>
     (\<exists>w. map_of ccv ''cert_manager'' = Some w \<and> map_of (w_values w) ''appVersion'' = None))
      \<longrightarrow> isl (main pv ab a ami ai dm wl)) \<and>
   (walk pv ab a wl ([], map (\<lambda>(_, img). Some img) ai) = Inr (ccv, wip) \<and>
    map_of ccv ''cert_manager'' = Some w \<and> map_of (w_values w) ''appVersion'' = Some t \<and>
    tree_truthy t \<and> main pv ab a ami ai dm wl = Inr out
      \<longrightarrow> map_of (m_charts (replication_result out)) ''cert_manager''
            = Some (w\<lparr>w_values := AList.delete ''appVersion'' (w_values w)\<rparr>)) \<and>
   (walk pv ab a wl ([], map (\<lambda>(_, img). Some img) ai) = Inr (ccv, wip) \<and>
    \<not> sorted_images_raises wip \<and>
    rewrite_all (registry_prefix a) dm (map (\<lambda>(_, img). Some img) ai) = Inr esa \<and>
    rewrite_all (registry_prefix a) dm wip = Inr esw \<and>
    map_of ccv ''cert_manager'' = Some w \<and> map_of (w_values w) ''appVersion'' = Some t
      \<longrightarrow> main pv ab a ami ai dm wl =
            Inr \<lparr>replication_result =
                   \<lparr>m_ami_version = ami,
                    m_charts =
                      (if tree_truthy t
                       then AList.update ''cert_manager''
                              (w\<lparr>w_values := AList.delete ''appVersion'' (w_values w)\<rparr>) ccv
                       else ccv),
                    m_additional_images =
                      foldl (\<lambda>d (name, img). AList.update name (registry_prefix a @ img) d) [] ai\<rparr>,
                 updated_images = esa @ esw\<rparr> \<and>
          error_log pv ab a ai dm wl = [] \<and>
          exit_status (main pv ab a ami ai dm wl) = 0) \<and>
   (walk pv ab a wl ([], map (\<lambda>(_, img). Some img) ai) = Inr (ccv, wip) \<and>
    \<not> sorted_images_raises wip \<and>
    rewrite_all (registry_prefix a) dm (map (\<lambda>(_, img). Some img) ai) = Inr esa \<and>
    rewrite_all (registry_prefix a) dm wip = Inr esw \<and>
    map_of ccv ''cert_manager'' = None
      \<longrightarrow> main pv ab a ami ai dm wl = Inl (KeyError ''cert_manager'') \<and>
          error_log pv ab a ai dm wl = [KeyError ''cert_manager''] \<and>
          exit_status (main pv ab a ami ai dm wl) = 1) \<and>
   (walk pv ab a wl ([], map (\<lambda>(_, img). Some img) ai) = Inr (ccv, wip) \<and>
    \<not> sorted_images_raises wip \<and>
    rewrite_all (registry_prefix a) dm (map (\<lambda>(_, img). Some img) ai) = Inr esa \<and>
    rewrite_all (registry_prefix a) dm wip = Inr esw \<and>
    map_of ccv ''cert_manager'' = Some w \<and> map_of (w_values w) ''appVersion'' = None
      \<longrightarrow> main pv ab a ami ai dm wl = Inl (KeyError ''appVersion'') \<and>
          error_log pv ab a ai dm wl = [KeyError ''appVersion''] \<and>
          exit_status (main pv ab a ami ai dm wl) = 1)"
proof -
  have 1: "\<exists>w. map_of (m_charts (replication_result out)) ''cert_manager'' = Some w \<and>
           (\<forall>t. map_of (w_values w) ''appVersion'' = Some t \<longrightarrow> \<not> tree_truthy t)"
    if M: "main pv ab a ami ai dm wl = Inr out"
  proof -
    from M obtain c c' where C: "cert_rule c = Inr c'" and O: "m_charts (replication_result out) = c'"
      by (rule main_Inr) simp
    show ?thesis using C unfolding O
      by (auto simp: cert_rule_def update_conv' delete_conv' split: option.splits if_splits)
  qed
  have 2: "isl (main pv ab a ami ai dm wl)"
    if W: "walk pv ab a wl ([], map (\<lambda>(_, img). Some img) ai) = Inr (ccv, wip)"
      and A: "map_of ccv ''cert_manager'' = None \<or>
     (\<exists>w. map_of ccv ''cert_manager'' = Some w \<and> map_of (w_values w) ''appVersion'' = None)"
  proof -
    have "isl (cert_rule ccv)" using A by (auto simp: cert_rule_def)
    then show ?thesis using W by (auto simp: main_def Let_def isl_def split: sum.splits)
  qed
  have 3: "map_of (m_charts (replication_result out)) ''cert_manager''
            = Some (w\<lparr>w_values := AList.delete ''appVersion'' (w_values w)\<rparr>)"
    if W: "walk pv ab a wl ([], map (\<lambda>(_, img). Some img) ai) = Inr (ccv, wip)"
      and A: "map_of ccv ''cert_manager'' = Some w" "map_of (w_values w) ''appVersion'' = Some t"
         "tree_truthy t"
      and M: "main pv ab a ami ai dm wl = Inr out"
  proof -
    from M W obtain c' where C: "cert_rule ccv = Inr c'" and O: "m_charts (replication_result out) = c'"
      by (auto elim!: main_Inr)
    show ?thesis using C A unfolding O by (auto simp: cert_rule_def update_conv')
  qed
  note r = main_reaches_rule
  have 4: "main pv ab a ami ai dm wl =
            Inr \<lparr>replication_result =
                   \<lparr>m_ami_version = ami,
                    m_charts =
                      (if tree_truthy t
                       then AList.update ''cert_manager''
                              (w\<lparr>w_values := AList.delete ''appVersion'' (w_values w)\<rparr>) ccv
                       else ccv),
                    m_additional_images =
                      foldl (\<lambda>d (name, img). AList.update name (registry_prefix a @ img) d) [] ai\<rparr>,
                 updated_images = esa @ esw\<rparr> \<and>
          error_log pv ab a ai dm wl = [] \<and>
          exit_status (main pv ab a ami ai dm wl) = 0"
    if "walk pv ab a wl ([], map (\<lambda>(_, img). Some img) ai) = Inr (ccv, wip)"
      "\<not> sorted_images_raises wip"
      "rewrite_all (registry_prefix a) dm (map (\<lambda>(_, img). Some img) ai) = Inr esa"
      "rewrite_all (registry_prefix a) dm wip = Inr esw"
      "map_of ccv ''cert_manager'' = Some w" "map_of (w_values w) ''appVersion'' = Some t"
    using r[OF that(1-4)] that(5,6) by (simp add: cert_rule_def exit_status_def)
  have 5: "main pv ab a ami ai dm wl = Inl (KeyError ''cert_manager'') \<and>
          error_log pv ab a ai dm wl = [KeyError ''cert_manager''] \<and>
          exit_status (main pv ab a ami ai dm wl) = 1"
    if "walk pv ab a wl ([], map (\<lambda>(_, img). Some img) ai) = Inr (ccv, wip)"
      "\<not> sorted_images_raises wip"
      "rewrite_all (registry_prefix a) dm (map (\<lambda>(_, img). Some img) ai) = Inr esa"
      "rewrite_all (registry_prefix a) dm wip = Inr esw"
      "map_of ccv ''cert_manager'' = None"
    using r[OF that(1-4)] that(5) by (simp add: cert_rule_def exit_status_def)
  have 6: "main pv ab a ami ai dm wl = Inl (KeyError ''appVersion'') \<and>
          error_log pv ab a ai dm wl = [KeyError ''appVersion''] \<and>
          exit_status (main pv ab a ami ai dm wl) = 1"
    if "walk pv ab a wl ([], map (\<lambda>(_, img). Some img) ai) = Inr (ccv, wip)"
      "\<not> sorted_images_raises wip"
      "rewrite_all (registry_prefix a) dm (map (\<lambda>(_, img). Some img) ai) = Inr esa"
      "rewrite_all (registry_prefix a) dm wip = Inr esw"
      "map_of ccv ''cert_manager'' = Some w" "map_of (w_values w) ''appVersion'' = None"
    using r[OF that(1-4)] that(5,6) by (simp add: cert_rule_def exit_status_def)
  show ?thesis using 1 2 3 4 5 6 by blast
qed

theorem cert_rule_truthy_only_witness:
  "error_log (parse_value_in cm_parsed) add_branch_to_dict example_args [] [] [(''cert_manager'', cm_chart)] = [] \<and>
   exit_status (main (parse_value_in cm_parsed) add_branch_to_dict example_args ''1.21.0'' [] []
                  [(''cert_manager'', cm_chart)]) = 0 \<and>
   (case main (parse_value_in cm_parsed) add_branch_to_dict example_args ''1.21.0'' [] []
           [(''cert_manager'', cm_chart)] of
      Inl e \<Rightarrow> False
    | Inr out \<Rightarrow>
        map_option w_values (map_of (m_charts (replication_result out)) ''cert_manager'')
          = Some [(''image'', Dict [(''repository'',
                     Leaf (Some ''999.dkr.ecr.example.com/quay.io/jetstack/cert-manager-controller''))])]) \<and>
   error_log (parse_value_in cm_parsed) add_branch_to_dict example_args [] []
     [(''cert_manager'', cm_chart_blank)] = [] \<and>
   exit_status (main (parse_value_in cm_parsed) add_branch_to_dict example_args ''1.21.0'' [] []
                  [(''cert_manager'', cm_chart_blank)]) = 0 \<and>
   (case main (parse_value_in cm_parsed) add_branch_to_dict example_args ''1.21.0'' [] []
           [(''cert_manager'', cm_chart_blank)] of
      Inl e \<Rightarrow> False
    | Inr out \<Rightarrow>
        map_option (\<lambda>w. map_of (w_values w) ''appVersion'')
          (map_of (m_charts (replication_result out)) ''cert_manager'')
        = Some (Some (Leaf (Some [])))) \<and>
   main (parse_value_in cm_parsed) add_branch_to_dict example_args ''1.21.0'' [] []
     [(''plain'', plain_chart)] = Inl (KeyError ''cert_manager'') \<and>
   error_log (parse_value_in cm_parsed) add_branch_to_dict example_args [] []
     [(''plain'', plain_chart)] = [KeyError ''cert_manager''] \<and>
   exit_status (main (parse_value_in cm_parsed) add_branch_to_dict example_args ''1.21.0'' [] []
                  [(''plain'', plain_chart)]) = 1 \<and>
   main (parse_value_in cm_parsed) add_branch_to_dict example_args ''1.21.0'' [] []
     [(''cert_manager'', cm_chart_untagged)] = Inl (KeyError ''appVersion'') \<and>
   error_log (parse_value_in cm_parsed) add_branch_to_dict example_args [] []
     [(''cert_manager'', cm_chart_untagged)] = [KeyError ''appVersion''] \<and>
   exit_status (main (parse_value_in cm_parsed) add_branch_to_dict example_args ''1.21.0'' [] []
                  [(''cert_manager'', cm_chart_untagged)]) = 1"
proof -
  let ?pv = "parse_value_in cm_parsed"
  let ?ab = add_branch_to_dict
  let ?a = example_args
  let ?ai = "[] :: (string \<times> string) list"
  let ?dm = "[] :: (string \<times> string) list"
  let ?V = "[(''image'', Dict [(''repository'',
                     Leaf (Some ''999.dkr.ecr.example.com/quay.io/jetstack/cert-manager-controller''))]),
             (''appVersion'', Leaf (Some ''v1.5.3''))]"
  \<comment> \<open>a truthy override is deleted\<close>
  have "\<exists>c wp e1 e2 w.
          walk ?pv ?ab ?a [(''cert_manager'', cm_chart)] ([], map (\<lambda>(_, img). Some img) ?ai) = Inr (c, wp) \<and>
          \<not> sorted_images_raises wp \<and>
          rewrite_all (registry_prefix ?a) ?dm (map (\<lambda>(_, img). Some img) ?ai) = Inr e1 \<and>
          rewrite_all (registry_prefix ?a) ?dm wp = Inr e2 \<and>
          map_of c ''cert_manager'' = Some w \<and> w_values w = ?V"
    by (simp add: main_defs cat_defs)
  then obtain c wp e1 e2 w where A:
    "walk ?pv ?ab ?a [(''cert_manager'', cm_chart)] ([], map (\<lambda>(_, img). Some img) ?ai) = Inr (c, wp)"
    "\<not> sorted_images_raises wp"
    "rewrite_all (registry_prefix ?a) ?dm (map (\<lambda>(_, img). Some img) ?ai) = Inr e1"
    "rewrite_all (registry_prefix ?a) ?dm wp = Inr e2"
    "map_of c ''cert_manager'' = Some w" and V: "w_values w = ?V"
    by blast
  have A6: "map_of (w_values w) ''appVersion'' = Some (Leaf (Some ''v1.5.3''))"
    by (simp add: V)
  have RA: "main ?pv ?ab ?a ''1.21.0'' ?ai ?dm [(''cert_manager'', cm_chart)] =
            Inr \<lparr>replication_result =
                   \<lparr>m_ami_version = ''1.21.0'',
                    m_charts =
                      (if tree_truthy (Leaf (Some ''v1.5.3''))
                       then AList.update ''cert_manager''
                              (w\<lparr>w_values := AList.delete ''appVersion'' (w_values w)\<rparr>) c
                       else c),
                    m_additional_images =
                      foldl (\<lambda>d (name, img). AList.update name (registry_prefix ?a @ img) d) [] ?ai\<rparr>,
                 updated_images = e1 @ e2\<rparr> \<and>
          error_log ?pv ?ab ?a ?ai ?dm [(''cert_manager'', cm_chart)] = [] \<and>
          exit_status (main ?pv ?ab ?a ''1.21.0'' ?ai ?dm [(''cert_manager'', cm_chart)]) = 0"
    by (rule mp[OF cert_rule_truthy_only[where pv = ?pv and ab = ?ab and a = ?a and ami = "''1.21.0''"
          and ai = ?ai and dm = ?dm and wl = "[(''cert_manager'', cm_chart)]" and ccv = c and wip = wp
          and esa = e1 and esw = e2 and w = w and t = "Leaf (Some ''v1.5.3'')", THEN conjunct2, THEN conjunct2, THEN conjunct2, THEN conjunct1]])
       (intro conjI A A6)
  \<comment> \<open>a falsy override is kept\<close>
  have "\<exists>c wp e1 e2 w.
          walk ?pv ?ab ?a [(''cert_manager'', cm_chart_blank)] ([], map (\<lambda>(_, img). Some img) ?ai) = Inr (c, wp) \<and>
          \<not> sorted_images_raises wp \<and>
          rewrite_all (registry_prefix ?a) ?dm (map (\<lambda>(_, img). Some img) ?ai) = Inr e1 \<and>
          rewrite_all (registry_prefix ?a) ?dm wp = Inr e2 \<and>
          map_of c ''cert_manager'' = Some w \<and> map_of (w_values w) ''appVersion'' = Some (Leaf (Some []))"
    by (simp add: main_defs cat_defs)
  then obtain c2 wp2 e12 e22 w2 where B:
    "walk ?pv ?ab ?a [(''cert_manager'', cm_chart_blank)] ([], map (\<lambda>(_, img). Some img) ?ai) = Inr (c2, wp2)"
    "\<not> sorted_images_raises wp2"
    "rewrite_all (registry_prefix ?a) ?dm (map (\<lambda>(_, img). Some img) ?ai) = Inr e12"
    "rewrite_all (registry_prefix ?a) ?dm wp2 = Inr e22"
    "map_of c2 ''cert_manager'' = Some w2" "map_of (w_values w2) ''appVersion'' = Some (Leaf (Some []))"
    by blast
  have RB: "main ?pv ?ab ?a ''1.21.0'' ?ai ?dm [(''cert_manager'', cm_chart_blank)] =
            Inr \<lparr>replication_result =
                   \<lparr>m_ami_version = ''1.21.0'',
                    m_charts =
                      (if tree_truthy (Leaf (Some []))
                       then AList.update ''cert_manager''
                              (w2\<lparr>w_values := AList.delete ''appVersion'' (w_values w2)\<rparr>) c2
                       else c2),
                    m_additional_images =
                      foldl (\<lambda>d (name, img). AList.update name (registry_prefix ?a @ img) d) [] ?ai\<rparr>,
                 updated_images = e12 @ e22\<rparr> \<and>
          error_log ?pv ?ab ?a ?ai ?dm [(''cert_manager'', cm_chart_blank)] = [] \<and>
          exit_status (main ?pv ?ab ?a ''1.21.0'' ?ai ?dm [(''cert_manager'', cm_chart_blank)]) = 0"
    by (rule mp[OF cert_rule_truthy_only[where pv = ?pv and ab = ?ab and a = ?a and ami = "''1.21.0''"
          and ai = ?ai and dm = ?dm and wl = "[(''cert_manager'', cm_chart_blank)]" and ccv = c2 and wip = wp2
          and esa = e12 and esw = e22 and w = w2 and t = "Leaf (Some [])", THEN conjunct2, THEN conjunct2, THEN conjunct2, THEN conjunct1]])
       (intro conjI B)
  \<comment> \<open>no cert_manager workload\<close>
  have "\<exists>c wp e1 e2.
          walk ?pv ?ab ?a [(''plain'', plain_chart)] ([], map (\<lambda>(_, img). Some img) ?ai) = Inr (c, wp) \<and>
          \<not> sorted_images_raises wp \<and>
          rewrite_all (registry_prefix ?a) ?dm (map (\<lambda>(_, img). Some img) ?ai) = Inr e1 \<and>
          rewrite_all (registry_prefix ?a) ?dm wp = Inr e2 \<and>
          map_of c ''cert_manager'' = None"
    by (simp add: main_defs cat_defs)
  then obtain c3 wp3 e13 e23 where C:
    "walk ?pv ?ab ?a [(''plain'', plain_chart)] ([], map (\<lambda>(_, img). Some img) ?ai) = Inr (c3, wp3)"
    "\<not> sorted_images_raises wp3"
    "rewrite_all (registry_prefix ?a) ?dm (map (\<lambda>(_, img). Some img) ?ai) = Inr e13"
    "rewrite_all (registry_prefix ?a) ?dm wp3 = Inr e23"
    "map_of c3 ''cert_manager'' = None"
    by blast
  have RC: "main ?pv ?ab ?a ''1.21.0'' ?ai ?dm [(''plain'', plain_chart)] = Inl (KeyError ''cert_manager'') \<and>
          error_log ?pv ?ab ?a ?ai ?dm [(''plain'', plain_chart)] = [KeyError ''cert_manager''] \<and>
          exit_status (main ?pv ?ab ?a ''1.21.0'' ?ai ?dm [(''plain'', plain_chart)]) = 1"
    by (rule mp[OF cert_rule_truthy_only[where pv = ?pv and ab = ?ab and a = ?a and ami = "''1.21.0''"
          and ai = ?ai and dm = ?dm and wl = "[(''plain'', plain_chart)]" and ccv = c3 and wip = wp3
          and esa = e13 and esw = e23, THEN conjunct2, THEN conjunct2, THEN conjunct2, THEN conjunct2, THEN conjunct1]])
       (intro conjI C)
  \<comment> \<open>a cert_manager workload without the key\<close>
  have "\<exists>c wp e1 e2 w.
          walk ?pv ?ab ?a [(''cert_manager'', cm_chart_untagged)] ([], map (\<lambda>(_, img). Some img) ?ai) = Inr (c, wp) \<and>
          \<not> sorted_images_raises wp \<and>
          rewrite_all (registry_prefix ?a) ?dm (map (\<lambda>(_, img). Some img) ?ai) = Inr e1 \<and>
          rewrite_all (registry_prefix ?a) ?dm wp = Inr e2 \<and>
          map_of c ''cert_manager'' = Some w \<and> map_of (w_values w) ''appVersion'' = None"
    by (simp add: main_defs cat_defs)
  then obtain c4 wp4 e14 e24 w4 where D:
    "walk ?pv ?ab ?a [(''cert_manager'', cm_chart_untagged)] ([], map (\<lambda>(_, img). Some img) ?ai) = Inr (c4, wp4)"
    "\<not> sorted_images_raises wp4"
    "rewrite_all (registry_prefix ?a) ?dm (map (\<lambda>(_, img). Some img) ?ai) = Inr e14"
    "rewrite_all (registry_prefix ?a) ?dm wp4 = Inr e24"
    "map_of c4 ''cert_manager'' = Some w4" "map_of (w_values w4) ''appVersion'' = None"
    by blast
  have RD: "main ?pv ?ab ?a ''1.21.0'' ?ai ?dm [(''cert_manager'', cm_chart_untagged)] = Inl (KeyError ''appVersion'') \<and>
          error_log ?pv ?ab ?a ?ai ?dm [(''cert_manager'', cm_chart_untagged)] = [KeyError ''appVersion''] \<and>
          exit_status (main ?pv ?ab ?a ''1.21.0'' ?ai ?dm [(''cert_manager'', cm_chart_untagged)]) = 1"
    by (rule mp[OF cert_rule_truthy_only[where pv = ?pv and ab = ?ab and a = ?a and ami = "''1.21.0''"
          and ai = ?ai and dm = ?dm and wl = "[(''cert_manager'', cm_chart_untagged)]" and ccv = c4 and wip = wp4
          and esa = e14 and esw = e24 and w = w4, THEN conjunct2, THEN conjunct2, THEN conjunct2, THEN conjunct2, THEN conjunct2]])
       (intro conjI D)
  have tA: "tree_truthy (Leaf (Some ''v1.5.3''))" and tB: "\<not> tree_truthy (Leaf (Some []))"
    by (simp_all add: tree_truthy_def truthy_def)
  show ?thesis
    using RA RB RC RD
    by (simp add: tA tB V A(5) B(5,6) update_conv' exit_status_def)
qed

text \<open>
  C6 as stated fails where the override is present but falsy: with the chart's
  \<^verbatim>\<open>appVersion\<close> blanked by a remove role, the run returns and the manifest still
  holds \<^verbatim>\<open>appVersion\<close>, bound to the empty string.
\<close>

theorem appVersion_blank_counterexample:
  "map_sum id (\<lambda>out. map_option (\<lambda>w. map_of (w_values w) ''appVersion'')
                        (map_of (m_charts (replication_result out)) ''cert_manager''))
     (main (parse_value_in cm_parsed) add_branch_to_dict example_args ''1.21.0'' [] []
        [(''cert_manager'', cm_chart_blank)])
   = Inr (Some (Some (Leaf (Some []))))"
  by (simp add: main_defs cat_defs)

text \<open>
  C10. With \<^verbatim>\<open>appVersion\<close> present in the cert_manager values, the rule does not
  raise; it deletes the key when the stored value is truthy and returns the charts
  unchanged when it is falsy. In the falsy case the manifest of a run that returns holds
  the charts exactly as the walk left them, \<^verbatim>\<open>appVersion\<close> included.
\<close>

theorem falsy_appVersion_retained:
  "(map_of ccv ''cert_manager'' = Some w \<and> map_of (w_values w) ''appVersion'' = Some t \<longrightarrow>
      cert_rule ccv =
        Inr (if tree_truthy t
             then AList.update ''cert_manager'' (w\<lparr>w_values := AList.delete ''appVersion'' (w_values w)\<rparr>) ccv
             else ccv)) \<and>
   (walk pv ab a wl ([], map (\<lambda>(_, img). Some img) ai) = Inr (ccv, wip) \<and>
    map_of ccv ''cert_manager'' = Some w \<and> map_of (w_values w) ''appVersion'' = Some t \<and>
    \<not> tree_truthy t \<and> main pv ab a ami ai dm wl = Inr out
      \<longrightarrow> m_charts (replication_result out) = ccv \<and>
          map_of (w_values w) ''appVersion'' = Some t)"
proof -
  have 2: "m_charts (replication_result out) = ccv"
    if W: "walk pv ab a wl ([], map (\<lambda>(_, img). Some img) ai) = Inr (ccv, wip)"
      and A: "map_of ccv ''cert_manager'' = Some w" "map_of (w_values w) ''appVersion'' = Some t"
         "\<not> tree_truthy t"
      and M: "main pv ab a ami ai dm wl = Inr out"
  proof -
    from M W obtain c' where C: "cert_rule ccv = Inr c'" and O: "m_charts (replication_result out) = c'"
      by (auto elim!: main_Inr)
    show ?thesis using C A unfolding O by (auto simp: cert_rule_def)
  qed
  show ?thesis using 2 by (auto simp: cert_rule_def)
qed

theorem falsy_appVersion_retained_witness:
  "\<not> tree_truthy (Leaf (Some [])) \<and>
   (case main (parse_value_in cm_parsed) add_branch_to_dict example_args ''1.21.0'' [] []
           [(''cert_manager'', cm_chart_blank)] of
      Inl e \<Rightarrow> False
    | Inr out \<Rightarrow>
        map_option (\<lambda>w. map_of (w_values w) ''appVersion'')
          (map_of (m_charts (replication_result out)) ''cert_manager'')
        = Some (Some (Leaf (Some []))))"
proof -
  let ?pv = "parse_value_in cm_parsed"
  let ?A = "[(''cert_manager'', cm_chart_blank)]"
  obtain out where M: "main ?pv add_branch_to_dict example_args ''1.21.0'' [] [] ?A = Inr out"
    by (cases "main ?pv add_branch_to_dict example_args ''1.21.0'' [] [] ?A")
       (simp_all add: main_defs cat_defs)
  have "\<exists>c wp w. walk ?pv add_branch_to_dict example_args ?A ([], map (\<lambda>(_, img). Some img) ([] :: (string \<times> string) list)) = Inr (c, wp) \<and>
          map_of c ''cert_manager'' = Some w \<and> map_of (w_values w) ''appVersion'' = Some (Leaf (Some []))"
    by (simp add: main_defs cat_defs)
  then obtain c wp w where
    W: "walk ?pv add_branch_to_dict example_args ?A ([], map (\<lambda>(_, img). Some img) ([] :: (string \<times> string) list)) = Inr (c, wp)"
    and A1: "map_of c ''cert_manager'' = Some w"
    and A2: "map_of (w_values w) ''appVersion'' = Some (Leaf (Some []))"
    by blast
  have A3: "\<not> tree_truthy (Leaf (Some []))"
    by (simp add: tree_truthy_def truthy_def)
  have "m_charts (replication_result out) = c \<and> map_of (w_values w) ''appVersion'' = Some (Leaf (Some []))"
    by (rule mp[OF conjunct2[OF
          falsy_appVersion_retained[where pv = ?pv and ab = add_branch_to_dict and a = example_args
            and ami = "''1.21.0''" and ai = "[]" and dm = "[]" and wl = ?A and out = out
            and ccv = c and wip = wp and w = w and t = "Leaf (Some [])"]]])
       (intro conjI W A1 A2 A3 M)
  then have R: "m_charts (replication_result out) = c" by (rule conjunct1)
  show ?thesis using A3 by (simp add: M R A1 A2)
qed

section \<open>Resolution misses and unknown roles, up to the run\<close>



text \<open>
  C7, as the script has it. A role outside registry, repository, tag and remove is passed
  over by all three loops: the extractor gives the same result, error or not, as on the
  image spec without that binding, and so does the loop over the images of a workload.
  For a \<^verbatim>\<open>parse_value\<close> that does not itself look at such bindings, the whole run
  on a catalog gives the same result, the two files or the exception, and the same error
  log as on the catalog with those bindings removed.
\<close>

theorem unknown_roles_ignored:
  "extract_image rv ab prefix (filter (\<lambda>(k, v). known_role k) image_data) st
     = extract_image rv ab prefix image_data st \<and>
   images_loop rvs ab prefix (map (\<lambda>(image_name, kvs). (image_name, filter (\<lambda>(k, v). known_role k) kvs)) imgs) st
     = images_loop rvs ab prefix imgs st \<and>
   ((\<forall>workload vals image_name.
       pv workload (known_roles_only vals) image_name = pv workload vals image_name) \<longrightarrow>
    main pv ab' a ami ai dm (map (\<lambda>(workload, vals). (workload, known_roles_only vals)) wl)
      = main pv ab' a ami ai dm wl \<and>
    error_log pv ab' a ai dm (map (\<lambda>(workload, vals). (workload, known_roles_only vals)) wl)
      = error_log pv ab' a ai dm wl)"
  by (simp add: extract_image_filter images_loop_filter main_def error_log_def walk_known)

theorem unknown_roles_ignored_witness:
  "(\<forall>workload vals image_name.
       parse_value_in cm_parsed workload (known_roles_only vals) image_name
         = parse_value_in cm_parsed workload vals image_name) \<and>
   \<not> known_role ''digest'' \<and>
   known_roles_only cm_chart_digest = cm_chart \<and>
   main (parse_value_in cm_parsed) add_branch_to_dict example_args ''1.21.0'' [] []
     [(''cert_manager'', cm_chart)]
   = main (parse_value_in cm_parsed) add_branch_to_dict example_args ''1.21.0'' [] []
       [(''cert_manager'', cm_chart_digest)] \<and>
   filter (\<lambda>(k, v). known_role k) cm_image_digest = cm_image \<and>
   extract_image (parse_value_in cm_parsed ''cert_manager'' cm_chart_digest ''controller'')
      add_branch_to_dict ''999.dkr.ecr.example.com/'' cm_image_digest ([], [])
   = extract_image (parse_value_in cm_parsed ''cert_manager'' cm_chart_digest ''controller'')
      add_branch_to_dict ''999.dkr.ecr.example.com/'' cm_image ([], [])"
proof -
  have H: "\<forall>workload vals image_name.
       parse_value_in cm_parsed workload (known_roles_only vals) image_name
         = parse_value_in cm_parsed workload vals image_name"
    by (simp add: parse_value_in_def fun_eq_iff)
  have K: "known_roles_only cm_chart_digest = cm_chart"
    by (simp add: known_roles_only_def cm_chart_digest_def cm_image_digest_def cm_chart_def cm_image_def
          known_role_def)
  have F: "filter (\<lambda>(k, v). known_role k) cm_image_digest = cm_image" "\<not> known_role ''digest''"
    by (simp_all add: cm_image_digest_def cm_image_def known_role_def)
  note T = unknown_roles_ignored[where rv = "parse_value_in cm_parsed ''cert_manager'' cm_chart_digest ''controller''"
      and ab = add_branch_to_dict and prefix = "''999.dkr.ecr.example.com/''" and image_data = cm_image_digest
      and st = "([], [])" and pv = "parse_value_in cm_parsed" and ab' = add_branch_to_dict
      and a = example_args and ami = "''1.21.0''" and ai = "[]" and dm = "[]"
      and wl = "[(''cert_manager'', cm_chart_digest)]"]
  have M: "main (parse_value_in cm_parsed) add_branch_to_dict example_args ''1.21.0'' [] []
             (map (\<lambda>(workload, vals). (workload, known_roles_only vals)) [(''cert_manager'', cm_chart_digest)])
           = main (parse_value_in cm_parsed) add_branch_to_dict example_args ''1.21.0'' [] []
               [(''cert_manager'', cm_chart_digest)]"
    using mp[OF T[THEN conjunct2, THEN conjunct2] H] by (rule conjunct1)
  have E: "extract_image (parse_value_in cm_parsed ''cert_manager'' cm_chart_digest ''controller'')
      add_branch_to_dict ''999.dkr.ecr.example.com/'' (filter (\<lambda>(k, v). known_role k) cm_image_digest) ([], [])
   = extract_image (parse_value_in cm_parsed ''cert_manager'' cm_chart_digest ''controller'')
      add_branch_to_dict ''999.dkr.ecr.example.com/'' cm_image_digest ([], [])"
    by (rule T[THEN conjunct1])
  show ?thesis using H F M E by (simp add: K)
qed

end
